theory Spec2Isabelle
  imports Main "HOL-Library.Finite_Map"
begin

section \<open>Key provisioning of the login server (\<open>src/config.js\<close>)\<close>

text \<open>
  The module body of \<open>config.js\<close> runs once when the module is loaded. This theory
  embeds the two parts with decision logic: the clamp of \<open>JWT_EXPIRES_IN\<close> (lines 55-59)
  and the RSA key setup (lines 88-132), called \<open>resolve\<close> here. The file system, the
  console and the process exit are explicit; the libraries \<open>jsonwebtoken\<close> and
  \<open>node-rsa\<close> are parameters of the model. Line 133, which builds a key object from
  the resolved private key, is a use of the result and not part of \<open>resolve\<close>.
\<close>

subsection \<open>The file system\<close>

text \<open>
  A \<open>Buffer\<close> is its bytes, a path is the string handed to \<open>fs\<close>. Paths are compared as
  written: two different strings name two different entries. A directory is an opaque
  entry (its children are not entries of the model); it is how a read fails with an
  error other than \<open>ENOENT\<close>. Permission checks on reading and writing are not modelled.
  A file carries its permission bits as a number (\<open>0o600 = 384\<close>).
\<close>

type_synonym bytes = string
type_synonym path = string

datatype node = File (content: bytes) (mode: nat) | Dir

type_synonym filesystem = "(path, node) fmap"

text \<open>The fields of a JavaScript error object that the module inspects.\<close>

record js_error =
  errorName :: string
  errorCode :: "string option"
  errorPath :: "string option"
  errorMessage :: string

text \<open>
  A failed system call throws an \<open>Error\<close> with the code of the failure, the path and a
  message \<open>CODE: description, syscall\<close>, as Node prints it.
\<close>

definition quoted :: "string \<Rightarrow> string" where
  "quoted p = [CHR 0x27] @ p @ [CHR 0x27]"

definition system_error :: "string \<Rightarrow> string \<Rightarrow> string \<Rightarrow> path \<Rightarrow> js_error" where
  "system_error c what syscall p =
     \<lparr>errorName = ''Error'', errorCode = Some c, errorPath = Some p,
      errorMessage = c @ '': '' @ what @ '', '' @ syscall\<rparr>"

definition ENOENT :: "string \<Rightarrow> path \<Rightarrow> js_error" where
  "ENOENT syscall p = system_error ''ENOENT'' ''no such file or directory'' syscall p"

definition EISDIR :: "string \<Rightarrow> path \<Rightarrow> js_error" where
  "EISDIR syscall p = system_error ''EISDIR'' ''illegal operation on a directory'' syscall p"

definition ENOTDIR :: "string \<Rightarrow> path \<Rightarrow> js_error" where
  "ENOTDIR syscall p = system_error ''ENOTDIR'' ''not a directory'' syscall p"

text \<open>\<open>fs.readFileSync(p)\<close> without an encoding: the bytes of the file, or a throw.\<close>

definition readFileSync :: "filesystem \<Rightarrow> path \<Rightarrow> js_error + bytes" where
  "readFileSync fs p =
     (case fmlookup fs p of
        None \<Rightarrow> Inl (ENOENT (''open '' @ quoted p) p)
      | Some Dir \<Rightarrow> Inl (EISDIR ''read'' p)
      | Some (File c m) \<Rightarrow> Inr c)"

text \<open>\<open>fs.existsSync(p)\<close>: true for a file and for a directory.\<close>

definition existsSync :: "filesystem \<Rightarrow> path \<Rightarrow> bool" where
  "existsSync fs p = (fmlookup fs p \<noteq> None)"

text \<open>
  \<open>fs.renameSync(old, new)\<close>: a missing source throws \<open>ENOENT\<close>; a file does not replace
  a directory, nor a directory a file; otherwise the entry moves and replaces what was
  at the new path.
\<close>

definition renameSync :: "filesystem \<Rightarrow> path \<Rightarrow> path \<Rightarrow> js_error + filesystem" where
  "renameSync fs old new =
     (let syscall = ''rename '' @ quoted old @ '' -> '' @ quoted new in
      case fmlookup fs old of
        None \<Rightarrow> Inl (ENOENT syscall old)
      | Some n \<Rightarrow>
          (case (n, fmlookup fs new) of
             (File c m, Some Dir) \<Rightarrow> Inl (EISDIR syscall old)
           | (Dir, Some (File c m)) \<Rightarrow> Inl (ENOTDIR syscall old)
           | _ \<Rightarrow> Inr (fmupd new n (fmdrop old fs))))"

text \<open>
  \<open>fs.writeFileSync(p, data)\<close>: a new file gets the creation mode of the process
  (\<open>0o666\<close> without the bits of the umask, the parameter \<open>create_mode\<close>); an existing file
  keeps its mode; a directory throws.
\<close>

definition writeFileSync :: "nat \<Rightarrow> filesystem \<Rightarrow> path \<Rightarrow> bytes \<Rightarrow> js_error + filesystem" where
  "writeFileSync create_mode fs p data =
     (case fmlookup fs p of
        None \<Rightarrow> Inr (fmupd p (File data create_mode) fs)
      | Some Dir \<Rightarrow> Inl (EISDIR (''open '' @ quoted p) p)
      | Some (File c m) \<Rightarrow> Inr (fmupd p (File data m) fs))"

text \<open>
  \<open>fs.chmodSync(p, mode)\<close> with a string mode: the string must be octal digits and is
  read in base 8. The mode of a directory is not part of the model.
\<close>

definition octal_digit :: "char \<Rightarrow> nat option" where
  "octal_digit c =
     (let n = (of_char c :: nat) in if 48 \<le> n \<and> n \<le> 55 then Some (n - 48) else None)"

fun parse_octal :: "nat \<Rightarrow> string \<Rightarrow> nat option" where
  "parse_octal acc [] = Some acc"
| "parse_octal acc (c # cs) =
     (case octal_digit c of None \<Rightarrow> None | Some d \<Rightarrow> parse_octal (acc * 8 + d) cs)"

definition parseFileMode :: "string \<Rightarrow> js_error + nat" where
  "parseFileMode s =
     (case (if s = [] then None else parse_octal 0 s) of
        None \<Rightarrow> Inl \<lparr>errorName = ''TypeError'', errorCode = Some ''ERR_INVALID_ARG_VALUE'',
                     errorPath = None, errorMessage = ''invalid mode''\<rparr>
      | Some m \<Rightarrow> Inr m)"

definition chmodSync :: "filesystem \<Rightarrow> path \<Rightarrow> string \<Rightarrow> js_error + filesystem" where
  "chmodSync fs p mode_string =
     (case parseFileMode mode_string of
        Inl e \<Rightarrow> Inl e
      | Inr m \<Rightarrow>
          (case fmlookup fs p of
             None \<Rightarrow> Inl (ENOENT (''chmod '' @ quoted p) p)
           | Some Dir \<Rightarrow> Inr fs
           | Some (File c old) \<Rightarrow> Inr (fmupd p (File c m) fs)))"

subsection \<open>Backup file names\<close>

text \<open>
  The template literal \<open>`.backup.${index}`\<close> prints the index in decimal. The index counts
  existing files, so it stays far below \<open>2^53\<close> and is a natural number here.
\<close>

definition digit_char :: "nat \<Rightarrow> char" where
  "digit_char d = char_of (48 + d)"

fun show_nat :: "nat \<Rightarrow> string" where
  "show_nat n = (if n < 10 then [digit_char n] else show_nat (n div 10) @ [digit_char (n mod 10)])"

declare show_nat.simps [simp del]

text \<open>The number that a string of decimal digits denotes, to state what \<open>show_nat\<close> prints.\<close>

definition decimal_value :: "string \<Rightarrow> nat" where
  "decimal_value s = foldl (\<lambda>acc c. acc * 10 + (of_char c - 48)) 0 s"

text \<open>
  Line 116: \<open>file = (index) => filename + (index ? `.backup.${index}` : "") + ".key"\<close>,
  here \<open>key_file\<close> with the loop variable \<open>filename\<close> as its first argument.
\<close>

definition key_file :: "string \<Rightarrow> nat \<Rightarrow> path" where
  "key_file filename index =
     filename @ (if index \<noteq> 0 then ''.backup.'' @ show_nat index else '''') @ ''.key''"

lemma digit_char_values:
  "digit_char 0 = CHR ''0''" "digit_char 1 = CHR ''1''" "digit_char 2 = CHR ''2''"
  "digit_char 3 = CHR ''3''" "digit_char 4 = CHR ''4''" "digit_char 5 = CHR ''5''"
  "digit_char 6 = CHR ''6''" "digit_char 7 = CHR ''7''" "digit_char 8 = CHR ''8''"
  "digit_char 9 = CHR ''9''" "digit_char (Suc 0) = CHR ''1''"
  by code_simp+

lemma of_char_digit_char: "d < 10 \<Longrightarrow> of_char (digit_char d) = 48 + d"
proof -
  assume d: "d < 10"
  have "(of_char (digit_char d) :: nat) = (48 + d) mod 256"
    unfolding digit_char_def by (rule of_char_of)
  also have "\<dots> = 48 + d" using d by (intro mod_less) linarith
  finally show ?thesis .
qed

lemma digit_char_inj: "a < 10 \<Longrightarrow> b < 10 \<Longrightarrow> digit_char a = digit_char b \<Longrightarrow> a = b"
proof -
  assume a: "a < 10" and b: "b < 10" and e: "digit_char a = digit_char b"
  have "(of_char (digit_char a) :: nat) = of_char (digit_char b)" using e by (rule arg_cong)
  then have "48 + a = 48 + b" using a b by (simp only: of_char_digit_char)
  then show "a = b" by linarith
qed

lemma decimal_value_show_nat: "decimal_value (show_nat n) = n"
proof (induction n rule: show_nat.induct)
  case (1 n)
  show ?case
  proof (cases "n < 10")
    case True
    then have "show_nat n = [digit_char n]" by (subst show_nat.simps) simp
    with True show ?thesis by (simp add: decimal_value_def of_char_digit_char)
  next
    case False
    then have sn: "show_nat n = show_nat (n div 10) @ [digit_char (n mod 10)]"
      by (subst show_nat.simps) simp
    have "decimal_value (show_nat n)
        = decimal_value (show_nat (n div 10)) * 10 + (of_char (digit_char (n mod 10)) - 48)"
      by (simp add: sn decimal_value_def)
    also have "\<dots> = n div 10 * 10 + n mod 10"
      using "1.IH" [OF False] by (simp add: of_char_digit_char)
    also have "\<dots> = n" by simp
    finally show ?thesis .
  qed
qed

lemma show_nat_nonempty: "show_nat n \<noteq> []"
  by (subst show_nat.simps) simp

lemma show_nat_inj: "show_nat a = show_nat b \<Longrightarrow> a = b"
proof (induction a arbitrary: b rule: show_nat.induct)
  case (1 n)
  show ?case
  proof (cases "n < 10")
    case True
    then have sn: "show_nat n = [digit_char n]" by (subst show_nat.simps) simp
    show ?thesis
    proof (cases "b < 10")
      case True
      then have "show_nat b = [digit_char b]" by (subst show_nat.simps) simp
      with sn "1.prems" have "digit_char n = digit_char b" by simp
      with \<open>n < 10\<close> \<open>b < 10\<close> show ?thesis by (rule digit_char_inj)
    next
      case False
      then have "show_nat b = show_nat (b div 10) @ [digit_char (b mod 10)]"
        by (subst show_nat.simps) simp
      with sn "1.prems" have "show_nat (b div 10) = []"
        by (metis append_eq_Cons_conv list.distinct(1) self_append_conv2)
      with show_nat_nonempty show ?thesis by blast
    qed
  next
    case False
    then have sn: "show_nat n = show_nat (n div 10) @ [digit_char (n mod 10)]"
      by (subst show_nat.simps) simp
    show ?thesis
    proof (cases "b < 10")
      case True
      then have "show_nat b = [digit_char b]" by (subst show_nat.simps) simp
      with sn "1.prems" have "show_nat (n div 10) = []"
        by (metis append_eq_Cons_conv list.distinct(1) self_append_conv2)
      with show_nat_nonempty show ?thesis by blast
    next
      case nb: False
      then have "show_nat b = show_nat (b div 10) @ [digit_char (b mod 10)]"
        by (subst show_nat.simps) simp
      with sn "1.prems" have eq: "show_nat (n div 10) = show_nat (b div 10)"
        and d: "digit_char (n mod 10) = digit_char (b mod 10)" by simp_all
      from "1.IH" [OF False eq] have "n div 10 = b div 10" .
      moreover from d have "n mod 10 = b mod 10" by (intro digit_char_inj) simp_all
      ultimately show ?thesis by (metis div_mult_mod_eq)
    qed
  qed
qed

lemma key_file_inj: "key_file filename i = key_file filename j \<Longrightarrow> i = j"
  by (auto simp: key_file_def dest: show_nat_inj split: if_splits)

lemma finite_occupied: "finite {j. existsSync fs (key_file filename j)}"
proof -
  have "inj (key_file filename)" by (rule injI) (rule key_file_inj)
  then have "finite (key_file filename -` fmdom' fs)"
    by (intro finite_vimageI) simp_all
  moreover have "{j. existsSync fs (key_file filename j)} = key_file filename -` fmdom' fs"
    by (auto simp: existsSync_def fmdom'_def dom_def)
  ultimately show ?thesis by simp
qed

subsection \<open>The scan for a free backup index\<close>

text \<open>Lines 115-119: \<open>while (fs.existsSync(file(index))) { index += 1 }\<close>.\<close>

function scan :: "filesystem \<Rightarrow> string \<Rightarrow> nat \<Rightarrow> nat" where
  "scan fs filename index =
     (if existsSync fs (key_file filename index) then scan fs filename (index + 1) else index)"
  by pat_completeness auto

termination
proof (relation "measure (\<lambda>(fs, filename, index). card {j. index \<le> j \<and> existsSync fs (key_file filename j)})")
  show "wf (measure (\<lambda>(fs, filename, index). card {j. index \<le> j \<and> existsSync fs (key_file filename j)}))"
    by simp
next
  fix fs filename index
  assume ex: "existsSync fs (key_file filename index)"
  let ?A = "{j. index + 1 \<le> j \<and> existsSync fs (key_file filename j)}"
  let ?B = "{j. index \<le> j \<and> existsSync fs (key_file filename j)}"
  have fin: "finite ?B" using finite_occupied [of fs filename] by (rule rev_finite_subset) auto
  have "index \<in> ?B" and "index \<notin> ?A" using ex by simp_all
  then have "?A \<noteq> ?B" by blast
  moreover have "?A \<subseteq> ?B" by auto
  ultimately have "?A \<subset> ?B" by (rule psubsetI [rotated])
  with fin have "card ?A < card ?B" by (rule psubset_card_mono)
  then show "((fs, filename, index + 1), (fs, filename, index))
      \<in> measure (\<lambda>(fs, filename, index). card {j. index \<le> j \<and> existsSync fs (key_file filename j)})"
    by simp
qed

declare scan.simps [simp del]

subsection \<open>State, console and the steps of the catch block\<close>

text \<open>
  The state threaded through the module body: the files, the mutations of the file
  system done so far (in order) and the lines printed on the console.
\<close>

datatype fs_op = Rename path path | Write path bytes | Chmod path string

datatype console_line = Log string | Warn string | Error string

record state =
  files :: filesystem
  effects :: "fs_op list"
  console :: "console_line list"

text \<open>
  A statement either completes (\<open>None\<close>) or throws (\<open>Some error\<close>); in both cases it
  leaves a state. \<open>and_then\<close> is the semicolon: a throw skips what follows.
\<close>

type_synonym statement = "state \<Rightarrow> js_error option \<times> state"

definition and_then :: "statement \<Rightarrow> statement \<Rightarrow> statement" where
  "and_then f g s = (case f s of (None, s') \<Rightarrow> g s' | (Some e, s') \<Rightarrow> (Some e, s'))"

definition print :: "console_line \<Rightarrow> statement" where
  "print line s = (None, s\<lparr>console := console s @ [line]\<rparr>)"

definition do_rename :: "path \<Rightarrow> path \<Rightarrow> statement" where
  "do_rename old new s =
     (case renameSync (files s) old new of
        Inl e \<Rightarrow> (Some e, s)
      | Inr fs' \<Rightarrow> (None, s\<lparr>files := fs', effects := effects s @ [Rename old new]\<rparr>))"

definition do_write :: "nat \<Rightarrow> path \<Rightarrow> bytes \<Rightarrow> statement" where
  "do_write create_mode p data s =
     (case writeFileSync create_mode (files s) p data of
        Inl e \<Rightarrow> (Some e, s)
      | Inr fs' \<Rightarrow> (None, s\<lparr>files := fs', effects := effects s @ [Write p data]\<rparr>))"

definition do_chmod :: "path \<Rightarrow> string \<Rightarrow> statement" where
  "do_chmod p mode_string s =
     (case chmodSync (files s) p mode_string of
        Inl e \<Rightarrow> (Some e, s)
      | Inr fs' \<Rightarrow> (None, s\<lparr>files := fs', effects := effects s @ [Chmod p mode_string]\<rparr>))"

text \<open>Lines 115-123: the body of the loop over the two base names.\<close>

definition backup :: "string \<Rightarrow> statement" where
  "backup filename s =
     (let index = scan (files s) filename 0 in
      if index > 0 then
        and_then
          (print (Warn (''Renaming '' @ key_file filename 0 @ '' to '' @ key_file filename index @ ''...'')))
          (do_rename (key_file filename 0) (key_file filename index)) s
      else (None, s))"

text \<open>\<open>for (let x of xs) body\<close>.\<close>

fun for_of :: "('a \<Rightarrow> statement) \<Rightarrow> 'a list \<Rightarrow> statement" where
  "for_of body [] s = (None, s)"
| "for_of body (x # xs) s = and_then (body x) (for_of body xs) s"

subsection \<open>The libraries and the environment\<close>

text \<open>
  \<open>jwt.sign({ test: "test" }, privateKey, config.jwtOptions)\<close> returns a token or throws,
  \<open>jwt.verify(testToken, publicKey)\<close> returns or throws, \<open>new rsa({ b: 2048 })\<close> with
  its two \<open>exportKey\<close> calls gives a fresh pair (private, public). What they compute is
  not in this repository, so they are parameters, with the creation mode of new files.
\<close>

record platform =
  jwt_sign :: "bytes \<Rightarrow> js_error + string"
  jwt_verify :: "string \<Rightarrow> bytes \<Rightarrow> js_error option"
  new_key :: "bytes \<times> bytes"
  create_mode :: nat

text \<open>
  An environment variable is absent (\<open>undefined\<close>) or a string; \<open>undefined\<close> and the
  empty string are the falsy ones. \<open>v || d\<close> on such a value:
\<close>

definition truthy :: "string option \<Rightarrow> bool" where
  "truthy v = (case v of None \<Rightarrow> False | Some x \<Rightarrow> x \<noteq> [])"

definition or_default :: "string option \<Rightarrow> string \<Rightarrow> string" where
  "or_default v d = (case v of None \<Rightarrow> d | Some x \<Rightarrow> if x = [] then d else x)"

text \<open>\<open>undefined\<close> in a template literal prints as the word.\<close>

definition template :: "string option \<Rightarrow> string" where
  "template v = (case v of None \<Rightarrow> ''undefined'' | Some x \<Rightarrow> x)"

subsection \<open>The try block (lines 89-95)\<close>

text \<open>
  The try block either completes with both buffers, or throws; at a throw the two
  variables hold what had been assigned so far (\<open>None\<close> is \<open>undefined\<close>). A \<open>Buffer\<close>
  is an object, so a variable that holds one is truthy whatever its length.
\<close>

datatype try_result = Completed bytes bytes | Thrown "bytes option" "bytes option" js_error

definition test_keys :: "platform \<Rightarrow> bytes \<Rightarrow> bytes \<Rightarrow> js_error option" where
  "test_keys pf privateKey publicKey =
     (case jwt_sign pf privateKey of
        Inl e \<Rightarrow> Some e
      | Inr testToken \<Rightarrow> jwt_verify pf testToken publicKey)"

definition try_load :: "platform \<Rightarrow> string option \<Rightarrow> string option \<Rightarrow> filesystem \<Rightarrow> try_result" where
  "try_load pf privateKeyPath publicKeyPath fs =
     (case readFileSync fs (or_default privateKeyPath ''./private.key'') of
        Inl e \<Rightarrow> Thrown None None e
      | Inr privateKey \<Rightarrow>
          (case readFileSync fs (or_default publicKeyPath ''./public.key'') of
             Inl e \<Rightarrow> Thrown (Some privateKey) None e
           | Inr publicKey \<Rightarrow>
               (case test_keys pf privateKey publicKey of
                  Some e \<Rightarrow> Thrown (Some privateKey) (Some publicKey) e
                | None \<Rightarrow> Completed privateKey publicKey)))"

subsection \<open>The catch block (lines 96-130) and \<open>resolve\<close>\<close>

definition missing_file_message :: "string option \<Rightarrow> string" where
  "missing_file_message p = ''Error: Could not find key at path '' @ template p @ ''.''"

definition invalid_pair_message :: string where
  "invalid_pair_message = ''Error: Testing provided keypair failed (could not verify a signed token).''"

definition unknown_error_message :: "js_error \<Rightarrow> string" where
  "unknown_error_message error =
     ''Error: Unkown error when loading keypair. ('' @ errorName error @ '', ''
       @ template (errorCode error) @ '', '' @ errorMessage error @ '')''"

text \<open>Lines 98-106: the line printed before \<open>process.exit(1)\<close>.\<close>

definition diagnostic :: "js_error \<Rightarrow> string" where
  "diagnostic error =
     (if errorName error = ''Error'' \<and> errorCode error = Some ''ENOENT''
      then missing_file_message (errorPath error)
      else if errorName error = ''JsonWebTokenError'' then invalid_pair_message
      else unknown_error_message error)"

text \<open>Line 109: the announcement.\<close>

definition generating :: console_line where
  "generating = Log ''Generating new keypair and saving to `./private.key` and `./public.key`...''"

text \<open>Lines 109-129: generate, back up, save.\<close>

definition regenerate :: "platform \<Rightarrow> statement" where
  "regenerate pf =
     and_then (print generating)
    (and_then (for_of backup [''./private'', ''./public''])
    (and_then (do_write (create_mode pf) ''./private.key'' (fst (new_key pf)))
    (and_then (do_chmod ''./private.key'' ''600'')
    (and_then (do_write (create_mode pf) ''./public.key'' (snd (new_key pf)))
              (do_chmod ''./public.key'' ''644'')))))"

text \<open>
  How the key setup ends: with \<open>config.privateKey\<close> and \<open>config.publicKey\<close> set, from
  the files or from the generator; with \<open>process.exit(code)\<close>; or with an exception
  that nothing catches.
\<close>

datatype origin = Loaded | Regenerated

datatype outcome = Done origin bytes bytes | Exit nat | Uncaught js_error

text \<open>Before the key setup nothing was written and nothing printed.\<close>

definition start :: "filesystem \<Rightarrow> state" where
  "start fs = \<lparr>files = fs, effects = [], console = []\<rparr>"

definition resolve :: "platform \<Rightarrow> string option \<Rightarrow> string option \<Rightarrow> filesystem \<Rightarrow> outcome \<times> state" where
  "resolve pf privateKeyPath publicKeyPath fs =
     (let s = start fs in
      case try_load pf privateKeyPath publicKeyPath fs of
        Completed privateKey publicKey \<Rightarrow>
          (Done Loaded privateKey publicKey, snd (print (Log ''Loaded RSA keypair.'') s))
      | Thrown privateKey publicKey error \<Rightarrow>
          if truthy privateKeyPath \<or> truthy publicKeyPath \<or> privateKey \<noteq> None \<or> publicKey \<noteq> None
          then (Exit 1, snd (print (Error (diagnostic error)) s))
          else (case regenerate pf s of
                  (Some e, s') \<Rightarrow> (Uncaught e, s')
                | (None, s') \<Rightarrow> (Done Regenerated (fst (new_key pf)) (snd (new_key pf)), s')))"

text \<open>A fatal abort is a process exit with a status other than zero.\<close>

fun Fatal :: "outcome \<Rightarrow> bool" where
  "Fatal (Exit status) = (status \<noteq> 0)"
| "Fatal (Uncaught e) = True"
| "Fatal (Done og privateKey publicKey) = False"

subsection \<open>The token expiry (lines 55-59)\<close>

text \<open>
  A JavaScript string is a sequence of UTF-16 code units. \<open>parseInt\<close> looks at their
  classes, so the value of \<open>JWT_EXPIRES_IN\<close> is a list of code units; \<open>utf16\<close> reads an
  ASCII literal.
\<close>

type_synonym code_unit = nat

definition utf16 :: "string \<Rightarrow> code_unit list" where
  "utf16 s = map of_char s"

text \<open>
  The number values that \<open>parseInt\<close> can return: \<open>NaN\<close>, the infinities, and the doubles
  that are integers. The two zeros are one value here: both are falsy and both compare
  equal.
\<close>

datatype number = NaN | NegInfinity | Finite int | PosInfinity

text \<open>White space and line terminators, which \<open>parseInt\<close> skips at the start.\<close>

definition is_whitespace :: "code_unit \<Rightarrow> bool" where
  "is_whitespace c =
     ((9 \<le> c \<and> c \<le> 13) \<or> c = 32 \<or> c = 160 \<or> c = 5760 \<or> (8192 \<le> c \<and> c \<le> 8202)
      \<or> c = 8232 \<or> c = 8233 \<or> c = 8239 \<or> c = 8287 \<or> c = 12288 \<or> c = 65279)"

definition digit_value :: "code_unit \<Rightarrow> nat option" where
  "digit_value c =
     (if 48 \<le> c \<and> c \<le> 57 then Some (c - 48)
      else if 97 \<le> c \<and> c \<le> 122 then Some (c - 87)
      else if 65 \<le> c \<and> c \<le> 90 then Some (c - 55)
      else None)"

definition radix_digit :: "nat \<Rightarrow> code_unit \<Rightarrow> bool" where
  "radix_digit R c = (case digit_value c of None \<Rightarrow> False | Some d \<Rightarrow> d < R)"

definition mathInt :: "nat \<Rightarrow> code_unit list \<Rightarrow> int" where
  "mathInt R Z =
     foldl (\<lambda>acc c. acc * int R + int (case digit_value c of None \<Rightarrow> 0 | Some d \<Rightarrow> d)) 0 Z"

text \<open>
  The conversion of an integer to a double: round to 53 significant bits (to a multiple
  of \<open>2^e\<close>, where \<open>e\<close> is the number of bits beyond 53), to nearest with ties to even; a
  result of magnitude \<open>2^1024\<close> or more is an infinity. The standard lets an engine
  replace the decimal digits after the 20th by zeros first; the model rounds the exact
  value.
\<close>

function bit_length :: "int \<Rightarrow> nat" where
  "bit_length n = (if n \<le> 0 then 0 else Suc (bit_length (n div 2)))"
  by pat_completeness auto
termination
  by (relation "measure nat") auto

declare bit_length.simps [simp del]

definition round_at :: "nat \<Rightarrow> int \<Rightarrow> int" where
  "round_at e a =
     (let q = a div 2 ^ e; r = a mod 2 ^ e;
          up = (2 * r > 2 ^ e \<or> (2 * r = 2 ^ e \<and> odd q))
      in (if up then q + 1 else q) * 2 ^ e)"

definition round_to_double :: "int \<Rightarrow> int" where
  "round_to_double a = round_at (bit_length a - 53) a"

definition to_number :: "int \<Rightarrow> number" where
  "to_number x =
     (let a = round_to_double \<bar>x\<bar> in
      if 2 ^ 1024 \<le> a then (if x < 0 then NegInfinity else PosInfinity)
      else Finite (if x < 0 then - a else a))"

text \<open>
  \<open>parseInt(string)\<close> with no radix: skip white space, take a sign, take a \<open>0x\<close> or
  \<open>0X\<close> prefix (then the radix is 16, otherwise 10), take the longest prefix of digits.
  \<open>integer_prefix\<close> is the integer these denote, with its sign; no digit gives \<open>NaN\<close>,
  otherwise the result is that integer as a double.
\<close>

definition integer_prefix :: "code_unit list \<Rightarrow> int option" where
  "integer_prefix inputString =
     (let S = dropWhile is_whitespace inputString;
          negative = (case S of [] \<Rightarrow> False | c # rest \<Rightarrow> c = 45);
          S1 = (case S of [] \<Rightarrow> [] | c # rest \<Rightarrow> if c = 43 \<or> c = 45 then rest else S);
          hex = (case S1 of a # b # rest \<Rightarrow> a = 48 \<and> (b = 120 \<or> b = 88) | _ \<Rightarrow> False);
          R = (if hex then 16 else 10);
          S2 = (if hex then drop 2 S1 else S1);
          Z = takeWhile (radix_digit R) S2
      in if Z = [] then None
         else Some (if negative then - mathInt R Z else mathInt R Z))"

definition parseInt :: "code_unit list \<Rightarrow> number" where
  "parseInt inputString =
     (case integer_prefix inputString of None \<Rightarrow> NaN | Some x \<Rightarrow> to_number x)"

text \<open>\<open>a || b\<close> on numbers (\<open>NaN\<close> and zero are falsy) and \<open>a < k\<close> for an integer \<open>k\<close>.\<close>

definition number_or :: "number \<Rightarrow> number \<Rightarrow> number" where
  "number_or a b = (if a = NaN \<or> a = Finite 0 then b else a)"

fun less_than :: "number \<Rightarrow> int \<Rightarrow> bool" where
  "less_than NaN k = False"
| "less_than NegInfinity k = True"
| "less_than (Finite n) k = (n < k)"
| "less_than PosInfinity k = False"

text \<open>
  An absent variable is \<open>undefined\<close>, which \<open>parseInt\<close> first turns into the string
  \<open>undefined\<close>.
\<close>

definition ToString :: "code_unit list option \<Rightarrow> code_unit list" where
  "ToString v = (case v of None \<Rightarrow> utf16 ''undefined'' | Some x \<Rightarrow> x)"

text \<open>Lines 55-59. The result is the value and what is printed.\<close>

definition jwtExpiresIn :: "code_unit list option \<Rightarrow> number \<times> console_line list" where
  "jwtExpiresIn JWT_EXPIRES_IN =
     (let jwtExpiresIn =
            number_or (parseInt (ToString JWT_EXPIRES_IN)) (Finite 120)
      in if less_than jwtExpiresIn 10
         then (Finite 10, [Warn ''Warning: Minimum for JWT_EXPIRES_IN is 10 seconds.''])
         else (jwtExpiresIn, []))"

subsection \<open>Notions used in the statements\<close>

text \<open>The state after the two rotations of lines 114-124.\<close>

definition rotated :: "state \<Rightarrow> state" where
  "rotated s = snd (backup ''./public'' (snd (backup ''./private'' s)))"

text \<open>Lines 100-105: the error is of neither of the two kinds the catch block names.\<close>

definition unknown_error :: "js_error \<Rightarrow> bool" where
  "unknown_error error =
     (\<not> (errorName error = ''Error'' \<and> errorCode error = Some ''ENOENT'')
      \<and> errorName error \<noteq> ''JsonWebTokenError'')"

subsection \<open>Example platforms and file systems\<close>

text \<open>
  A platform whose only valid pair is \<open>good\<close> with \<open>goodpub\<close>: signing rejects every
  other private key and verifying every other public key, each with a
  \<open>JsonWebTokenError\<close>.
\<close>

definition test_platform :: platform where
  "test_platform =
     \<lparr>jwt_sign = (\<lambda>privateKey. if privateKey = ''good'' then Inr ''token''
          else Inl \<lparr>errorName = ''JsonWebTokenError'', errorCode = None, errorPath = None,
                    errorMessage = ''secretOrPrivateKey must be an asymmetric key''\<rparr>),
      jwt_verify = (\<lambda>token publicKey. if publicKey = ''goodpub'' then None
          else Some \<lparr>errorName = ''JsonWebTokenError'', errorCode = None, errorPath = None,
                     errorMessage = ''invalid signature''\<rparr>),
      new_key = (''newpriv'', ''newpub''),
      create_mode = 420\<rparr>"

text \<open>A current private key with one older backup.\<close>

definition two_private :: state where
  "two_private =
     \<lparr>files = fmupd ''./private.key'' (File ''current'' 384)
                (fmupd ''./private.backup.1.key'' (File ''older'' 384) fmempty),
      effects = [], console = []\<rparr>"

text \<open>File systems with a valid pair, a lone public key, and invalid pairs.\<close>

definition valid_pair :: filesystem where
  "valid_pair = fmupd ''./private.key'' (File ''good'' 384)
                 (fmupd ''./public.key'' (File ''goodpub'' 420) fmempty)"

definition only_public :: filesystem where
  "only_public = fmupd ''./public.key'' (File ''goodpub'' 420) fmempty"

definition invalid_pair :: filesystem where
  "invalid_pair = fmupd ''./private.key'' (File ''bad'' 384)
                   (fmupd ''./public.key'' (File ''badpub'' 420) fmempty)"

definition configured_invalid :: filesystem where
  "configured_invalid = fmupd ''/etc/login/private.key'' (File ''good'' 384)
                         (fmupd ''/etc/login/public.key'' (File ''other'' 420) fmempty)"

text \<open>A directory in the place of the private key, and an empty private key.\<close>

definition private_is_directory :: filesystem where
  "private_is_directory = fmupd ''./private.key'' Dir fmempty"

definition configured_directory :: filesystem where
  "configured_directory = fmupd ''/etc/login/private.key'' Dir fmempty"

definition empty_private :: filesystem where
  "empty_private = fmupd ''./private.key'' (File [] 384) fmempty"

section \<open>Properties\<close>

subsection \<open>The scan and the rotation\<close>

lemma scan_ge: "index \<le> scan fs filename index"
proof (induction fs filename index rule: scan.induct)
  case (1 fs filename index)
  show ?case
  proof (cases "existsSync fs (key_file filename index)")
    case True
    with "1.IH" have "index + 1 \<le> scan fs filename (index + 1)" by simp
    moreover from True have "scan fs filename index = scan fs filename (index + 1)"
      by (subst scan.simps) simp
    ultimately show ?thesis by simp
  next
    case False
    then show ?thesis by (subst scan.simps) simp
  qed
qed

lemma scan_free: "\<not> existsSync fs (key_file filename (scan fs filename index))"
proof (induction fs filename index rule: scan.induct)
  case (1 fs filename index)
  show ?case
  proof (cases "existsSync fs (key_file filename index)")
    case True
    then have "scan fs filename index = scan fs filename (index + 1)"
      by (subst scan.simps) simp
    with True "1.IH" show ?thesis by simp
  next
    case False
    then have "scan fs filename index = index" by (subst scan.simps) simp
    with False show ?thesis by simp
  qed
qed

lemma scan_occupied:
  "index \<le> j \<Longrightarrow> j < scan fs filename index \<Longrightarrow> existsSync fs (key_file filename j)"
proof (induction fs filename index rule: scan.induct)
  case (1 fs filename index)
  show ?case
  proof (cases "existsSync fs (key_file filename index)")
    case True
    then have eq: "scan fs filename index = scan fs filename (index + 1)"
      by (subst scan.simps) simp
    show ?thesis
    proof (cases "j = index")
      case True
      with \<open>existsSync fs (key_file filename index)\<close> show ?thesis by simp
    next
      case False
      with "1.prems" eq have "index + 1 \<le> j" and "j < scan fs filename (index + 1)" by simp_all
      with "1.IH" [OF True] show ?thesis by blast
    qed
  next
    case False
    then have "scan fs filename index = index" by (subst scan.simps) simp
    with "1.prems" show ?thesis by simp
  qed
qed

lemma scan_zero_iff: "scan fs filename 0 = 0 \<longleftrightarrow> \<not> existsSync fs (key_file filename 0)"
proof
  assume "scan fs filename 0 = 0"
  with scan_free [of fs filename 0] show "\<not> existsSync fs (key_file filename 0)" by simp
next
  assume "\<not> existsSync fs (key_file filename 0)"
  then show "scan fs filename 0 = 0" by (subst scan.simps) simp
qed

lemma scan_least:
  "index \<le> k \<Longrightarrow> \<not> existsSync fs (key_file filename k) \<Longrightarrow> scan fs filename index \<le> k"
  using scan_occupied [of index k fs filename] by (meson not_le_imp_less)

lemma backup_nothing:
  "scan (files s) filename 0 = 0 \<Longrightarrow> backup filename s = (None, s)"
  by (simp add: backup_def)

lemma backup_rename:
  assumes "0 < scan (files s) filename 0"
  shows "\<exists>n. fmlookup (files s) (key_file filename 0) = Some n \<and>
     backup filename s =
       (None, s\<lparr>files := fmupd (key_file filename (scan (files s) filename 0)) n
                            (fmdrop (key_file filename 0) (files s)),
                effects := effects s @ [Rename (key_file filename 0)
                                          (key_file filename (scan (files s) filename 0))],
                console := console s @ [Warn (''Renaming '' @ key_file filename 0 @ '' to ''
                     @ key_file filename (scan (files s) filename 0) @ ''...'')]\<rparr>)"
proof -
  let ?i = "scan (files s) filename 0"
  from assms have "existsSync (files s) (key_file filename 0)"
    using scan_zero_iff [of "files s" filename] by simp
  then obtain n where n: "fmlookup (files s) (key_file filename 0) = Some n"
    by (auto simp: existsSync_def)
  have free: "fmlookup (files s) (key_file filename ?i) = None"
    using scan_free [of "files s" filename 0] by (simp add: existsSync_def)
  have "renameSync (files s) (key_file filename 0) (key_file filename ?i)
      = Inr (fmupd (key_file filename ?i) n (fmdrop (key_file filename 0) (files s)))"
    using n free by (simp add: renameSync_def Let_def split: node.splits)
  then have "backup filename s = (None, s\<lparr>files := fmupd (key_file filename ?i) n
                            (fmdrop (key_file filename 0) (files s)),
                effects := effects s @ [Rename (key_file filename 0) (key_file filename ?i)],
                console := console s @ [Warn (''Renaming '' @ key_file filename 0 @ '' to ''
                     @ key_file filename ?i @ ''...'')]\<rparr>)"
    using assms by (simp add: backup_def Let_def and_then_def print_def do_rename_def)
  with n show ?thesis by blast
qed

lemma backup_completes: "fst (backup filename s) = None"
proof (cases "scan (files s) filename 0 = 0")
  case True
  then show ?thesis by (simp add: backup_nothing)
next
  case False
  then have "0 < scan (files s) filename 0" by simp
  from backup_rename [OF this] obtain x where "backup filename s = (None, x)" by blast
  then show ?thesis by simp
qed

lemma backup_files:
  assumes "0 < scan (files s) filename 0"
  shows "\<exists>n. fmlookup (files s) (key_file filename 0) = Some n
       \<and> files (snd (backup filename s))
           = fmupd (key_file filename (scan (files s) filename 0)) n
               (fmdrop (key_file filename 0) (files s))"
proof -
  from backup_rename [OF assms] obtain n where
    n: "fmlookup (files s) (key_file filename 0) = Some n" and
    b: "backup filename s =
       (None, s\<lparr>files := fmupd (key_file filename (scan (files s) filename 0)) n
                            (fmdrop (key_file filename 0) (files s)),
                effects := effects s @ [Rename (key_file filename 0)
                                          (key_file filename (scan (files s) filename 0))],
                console := console s @ [Warn (''Renaming '' @ key_file filename 0 @ '' to ''
                     @ key_file filename (scan (files s) filename 0) @ ''...'')]\<rparr>)"
    by blast
  have "files (snd (backup filename s))
      = fmupd (key_file filename (scan (files s) filename 0)) n
               (fmdrop (key_file filename 0) (files s))"
    by (subst b) simp
  with n show ?thesis by blast
qed

lemma backup_effects:
  assumes "0 < scan (files s) filename 0"
  shows "effects (snd (backup filename s))
       = effects s @ [Rename (key_file filename 0) (key_file filename (scan (files s) filename 0))]"
proof -
  from backup_rename [OF assms] obtain n where
    b: "backup filename s =
       (None, s\<lparr>files := fmupd (key_file filename (scan (files s) filename 0)) n
                            (fmdrop (key_file filename 0) (files s)),
                effects := effects s @ [Rename (key_file filename 0)
                                          (key_file filename (scan (files s) filename 0))],
                console := console s @ [Warn (''Renaming '' @ key_file filename 0 @ '' to ''
                     @ key_file filename (scan (files s) filename 0) @ ''...'')]\<rparr>)"
    by blast
  show ?thesis by (subst b) simp
qed

lemma backup_frees: "\<not> existsSync (files (snd (backup filename s))) (key_file filename 0)"
proof (cases "scan (files s) filename 0 = 0")
  case True
  then have "backup filename s = (None, s)" by (rule backup_nothing)
  moreover from True have "\<not> existsSync (files s) (key_file filename 0)"
    by (simp add: scan_zero_iff)
  ultimately show ?thesis by simp
next
  case False
  then have pos: "0 < scan (files s) filename 0" by simp
  from backup_files [OF pos] obtain n where
    f: "files (snd (backup filename s))
           = fmupd (key_file filename (scan (files s) filename 0)) n
               (fmdrop (key_file filename 0) (files s))" by blast
  have "key_file filename (scan (files s) filename 0) \<noteq> key_file filename 0"
  proof
    assume "key_file filename (scan (files s) filename 0) = key_file filename 0"
    then have "scan (files s) filename 0 = 0" by (rule key_file_inj)
    with False show False by simp
  qed
  then show ?thesis by (simp add: f existsSync_def)
qed

lemma backup_keeps:
  assumes "p \<noteq> key_file filename 0" and "p \<noteq> key_file filename (scan (files s) filename 0)"
  shows "fmlookup (files (snd (backup filename s))) p = fmlookup (files s) p"
proof (cases "scan (files s) filename 0 = 0")
  case True
  then have "backup filename s = (None, s)" by (rule backup_nothing)
  then show ?thesis by simp
next
  case False
  then have pos: "0 < scan (files s) filename 0" by simp
  from backup_files [OF pos] obtain n where
    f: "files (snd (backup filename s))
           = fmupd (key_file filename (scan (files s) filename 0)) n
               (fmdrop (key_file filename 0) (files s))" by blast
  show ?thesis using assms by (simp add: f)
qed

text \<open>
  C2. Candidate 0 is the base name with \<open>.key\<close>, candidate \<open>i > 0\<close> the base name with
  \<open>.backup.\<close>, \<open>i\<close> in decimal and \<open>.key\<close>.
  For every state of the file system and every base name, the scan started at 0 ends
  at the smallest index \<open>i\<close> whose candidate name is free: every candidate below \<open>i\<close>
  exists and candidate \<open>i\<close> does not. The rotation never throws. With \<open>i = 0\<close> it changes
  nothing; with \<open>i > 0\<close> it does one rename, of candidate 0 to candidate \<open>i\<close>, whose target
  did not exist. Afterwards the unsuffixed name is free, and every other entry that
  existed is unchanged: no backup is overwritten.
\<close>

theorem backup_rotation:
  "(\<forall>j < scan (files s) filename 0. existsSync (files s) (key_file filename j))
   \<and> \<not> existsSync (files s) (key_file filename (scan (files s) filename 0))
   \<and> fst (backup filename s) = None
   \<and> (scan (files s) filename 0 = 0 \<longrightarrow> snd (backup filename s) = s)
   \<and> (0 < scan (files s) filename 0 \<longrightarrow>
        (\<exists>n. fmlookup (files s) (key_file filename 0) = Some n
           \<and> files (snd (backup filename s))
               = fmupd (key_file filename (scan (files s) filename 0)) n
                   (fmdrop (key_file filename 0) (files s)))
        \<and> effects (snd (backup filename s))
            = effects s @ [Rename (key_file filename 0)
                             (key_file filename (scan (files s) filename 0))])
   \<and> \<not> existsSync (files (snd (backup filename s))) (key_file filename 0)
   \<and> (\<forall>p. existsSync (files s) p \<and> p \<noteq> key_file filename 0
          \<longrightarrow> fmlookup (files (snd (backup filename s))) p = fmlookup (files s) p)
   \<and> key_file filename 0 = filename @ ''.key''
   \<and> (\<forall>i>0. key_file filename i = filename @ ''.backup.'' @ show_nat i @ ''.key''
          \<and> decimal_value (show_nat i) = i)"
proof (intro conjI allI impI)
  fix j assume "j < scan (files s) filename 0"
  then show "existsSync (files s) (key_file filename j)"
    using scan_occupied [of 0 j "files s" filename] by simp
next
  show "\<not> existsSync (files s) (key_file filename (scan (files s) filename 0))"
    by (rule scan_free)
next
  show "fst (backup filename s) = None" by (rule backup_completes)
next
  assume "scan (files s) filename 0 = 0"
  then show "snd (backup filename s) = s" by (simp add: backup_nothing)
next
  assume "0 < scan (files s) filename 0"
  then show "\<exists>n. fmlookup (files s) (key_file filename 0) = Some n
           \<and> files (snd (backup filename s))
               = fmupd (key_file filename (scan (files s) filename 0)) n
                   (fmdrop (key_file filename 0) (files s))"
    by (rule backup_files)
next
  assume "0 < scan (files s) filename 0"
  then show "effects (snd (backup filename s))
            = effects s @ [Rename (key_file filename 0)
                             (key_file filename (scan (files s) filename 0))]"
    by (rule backup_effects)
next
  show "\<not> existsSync (files (snd (backup filename s))) (key_file filename 0)"
    by (rule backup_frees)
next
  fix p assume p: "existsSync (files s) p \<and> p \<noteq> key_file filename 0"
  with scan_free [of "files s" filename 0]
  have "p \<noteq> key_file filename (scan (files s) filename 0)" by blast
  with p show "fmlookup (files (snd (backup filename s))) p = fmlookup (files s) p"
    by (simp add: backup_keeps)
next
  show "key_file filename 0 = filename @ ''.key''" by (simp add: key_file_def)
next
  fix i :: nat assume "0 < i"
  then show "key_file filename i = filename @ ''.backup.'' @ show_nat i @ ''.key''"
    by (simp add: key_file_def)
next
  fix i :: nat
  show "decimal_value (show_nat i) = i" by (rule decimal_value_show_nat)
qed

theorem backup_rotation_witness:
  "0 < scan (files two_private) ''./private'' 0
   \<and> effects (snd (backup ''./private'' two_private))
        = [Rename ''./private.key'' ''./private.backup.2.key'']
   \<and> \<not> existsSync (files (snd (backup ''./private'' two_private))) ''./private.key''
   \<and> fmlookup (files (snd (backup ''./private'' two_private))) ''./private.backup.1.key''
        = Some (File ''older'' 384)"
proof -
  have i: "scan (files two_private) ''./private'' 0 = 2" by code_simp
  have k0: "key_file ''./private'' 0 = ''./private.key''" by code_simp
  have k2: "key_file ''./private'' 2 = ''./private.backup.2.key''" by code_simp
  have e: "effects two_private = []" by (simp add: two_private_def)
  have old: "existsSync (files two_private) ''./private.backup.1.key''
      \<and> fmlookup (files two_private) ''./private.backup.1.key'' = Some (File ''older'' 384)"
    by (simp add: two_private_def existsSync_def)
  from backup_rotation [of two_private "''./private''"] old
  show ?thesis unfolding i k0 k2 e by simp
qed

subsection \<open>Rotating both names and saving the keys\<close>

lemma key_file_0: "key_file filename 0 = filename @ ''.key''"
  by (simp add: key_file_def)

lemma key_file_pos: "0 < i \<Longrightarrow> key_file filename i = filename @ ''.backup.'' @ show_nat i @ ''.key''"
  by (simp add: key_file_def)

lemma public_backup_not_private: "key_file ''./public'' i \<noteq> ''./private.key''"
  by (simp add: key_file_def)

lemma private_backup_not_public: "key_file ''./private'' i \<noteq> ''./public.key''"
  by (simp add: key_file_def)

lemma parseFileMode_600: "parseFileMode ''600'' = Inr 384"
  by (simp add: parseFileMode_def octal_digit_def)

lemma parseFileMode_644: "parseFileMode ''644'' = Inr 420"
  by (simp add: parseFileMode_def octal_digit_def)

text \<open>Writing a key to a free path and setting its mode.\<close>

lemma save_key:
  assumes "fmlookup (files s) p = None" and "parseFileMode mode_string = Inr m"
  shows "and_then (do_write cm p data) (do_chmod p mode_string) s
       = (None, s\<lparr>files := fmupd p (File data m) (files s),
                   effects := effects s @ [Write p data, Chmod p mode_string]\<rparr>)"
  using assms
  by (simp add: and_then_def do_write_def writeFileSync_def do_chmod_def chmodSync_def)

lemma and_then_assoc: "and_then (and_then f g) h = and_then f (and_then g h)"
  by (rule ext) (simp add: and_then_def split: prod.splits option.splits)

lemma and_then_ok: "f s = (None, s') \<Longrightarrow> and_then f g s = g s'"
  by (simp add: and_then_def)

lemma backup_pair: "backup filename s = (None, snd (backup filename s))"
  using backup_completes [of filename s] by (cases "backup filename s") simp

lemma backups_result:
  "for_of backup [''./private'', ''./public''] s
     = (None, snd (backup ''./public'' (snd (backup ''./private'' s))))"
proof -
  have "for_of backup [''./private'', ''./public''] s
      = and_then (backup ''./private'') (for_of backup [''./public'']) s"
    by simp
  also have "\<dots> = for_of backup [''./public''] (snd (backup ''./private'' s))"
    by (rule and_then_ok) (rule backup_pair)
  also have "\<dots> = and_then (backup ''./public'') (for_of backup []) (snd (backup ''./private'' s))"
    by simp
  also have "\<dots> = for_of backup [] (snd (backup ''./public'' (snd (backup ''./private'' s))))"
    by (rule and_then_ok) (rule backup_pair)
  finally show ?thesis by simp
qed

lemma rotated_public_free: "fmlookup (files (rotated s)) ''./public.key'' = None"
  using backup_frees [of "''./public''" "snd (backup ''./private'' s)"]
  by (simp add: rotated_def existsSync_def key_file_0)

lemma rotated_private_free: "fmlookup (files (rotated s)) ''./private.key'' = None"
proof -
  have "fmlookup (files (snd (backup ''./private'' s))) ''./private.key'' = None"
    using backup_frees [of "''./private''" s] by (simp add: existsSync_def key_file_0)
  moreover have "fmlookup (files (rotated s)) ''./private.key''
      = fmlookup (files (snd (backup ''./private'' s))) ''./private.key''"
    unfolding rotated_def by (rule backup_keeps) (simp_all add: public_backup_not_private [symmetric])
  ultimately show ?thesis by simp
qed

lemma regenerate_result:
  fixes pf :: platform and s :: state
  defines "r \<equiv> rotated (s\<lparr>console := console s @ [generating]\<rparr>)"
  shows "regenerate pf s
       = (None, r\<lparr>files := fmupd ''./public.key'' (File (snd (new_key pf)) 420)
                             (fmupd ''./private.key'' (File (fst (new_key pf)) 384) (files r)),
                   effects := effects r @
                     [Write ''./private.key'' (fst (new_key pf)), Chmod ''./private.key'' ''600'',
                      Write ''./public.key'' (snd (new_key pf)), Chmod ''./public.key'' ''644'']\<rparr>)"
proof -
  let ?save_private = "and_then (do_write (create_mode pf) ''./private.key'' (fst (new_key pf)))
                                (do_chmod ''./private.key'' ''600'')"
  let ?save_public = "and_then (do_write (create_mode pf) ''./public.key'' (snd (new_key pf)))
                               (do_chmod ''./public.key'' ''644'')"
  let ?r1 = "r\<lparr>files := fmupd ''./private.key'' (File (fst (new_key pf)) 384) (files r),
               effects := effects r @ [Write ''./private.key'' (fst (new_key pf)),
                                       Chmod ''./private.key'' ''600'']\<rparr>"
  have shape: "regenerate pf
      = and_then (print generating)
          (and_then (for_of backup [''./private'', ''./public''])
             (and_then ?save_private ?save_public))"
    by (simp add: regenerate_def and_then_assoc)
  have p: "print generating s = (None, s\<lparr>console := console s @ [generating]\<rparr>)"
    by (simp add: print_def)
  have b: "for_of backup [''./private'', ''./public''] (s\<lparr>console := console s @ [generating]\<rparr>)
      = (None, r)"
    unfolding r_def rotated_def by (rule backups_result)
  have w1: "?save_private r = (None, ?r1)"
    by (rule save_key) (simp_all add: r_def rotated_private_free parseFileMode_600)
  have "fmlookup (files ?r1) ''./public.key'' = None"
    by (simp add: r_def rotated_public_free)
  then have w2: "?save_public ?r1
      = (None, ?r1\<lparr>files := fmupd ''./public.key'' (File (snd (new_key pf)) 420) (files ?r1),
                     effects := effects ?r1 @ [Write ''./public.key'' (snd (new_key pf)),
                                               Chmod ''./public.key'' ''644'']\<rparr>)"
    by (rule save_key) (rule parseFileMode_644)
  have "regenerate pf s
      = and_then (for_of backup [''./private'', ''./public''])
          (and_then ?save_private ?save_public) (s\<lparr>console := console s @ [generating]\<rparr>)"
    unfolding shape using p by (rule and_then_ok)
  also have "\<dots> = and_then ?save_private ?save_public r"
    using b by (rule and_then_ok)
  also have "\<dots> = ?save_public ?r1"
    using w1 by (rule and_then_ok)
  finally have "regenerate pf s = ?save_public ?r1" .
  with w2 show ?thesis by simp
qed

subsection \<open>The three ways \<open>resolve\<close> ends\<close>

lemma or_default_falsy: "\<not> truthy v \<Longrightarrow> or_default v d = d"
  by (simp add: truthy_def or_default_def split: option.splits)

lemma resolve_completed:
  "try_load pf privateKeyPath publicKeyPath fs = Completed privateKey publicKey \<Longrightarrow>
   resolve pf privateKeyPath publicKeyPath fs
     = (Done Loaded privateKey publicKey,
        \<lparr>files = fs, effects = [], console = [Log ''Loaded RSA keypair.'']\<rparr>)"
  by (simp add: resolve_def start_def print_def)

lemma resolve_exit:
  "try_load pf privateKeyPath publicKeyPath fs = Thrown privateKey publicKey error \<Longrightarrow>
   truthy privateKeyPath \<or> truthy publicKeyPath \<or> privateKey \<noteq> None \<or> publicKey \<noteq> None \<Longrightarrow>
   resolve pf privateKeyPath publicKeyPath fs
     = (Exit 1, \<lparr>files = fs, effects = [], console = [Error (diagnostic error)]\<rparr>)"
  by (simp add: resolve_def start_def print_def)

lemma resolve_regenerate:
  assumes "try_load pf privateKeyPath publicKeyPath fs = Thrown None None error"
    and "\<not> truthy privateKeyPath" and "\<not> truthy publicKeyPath"
  shows "resolve pf privateKeyPath publicKeyPath fs
     = (Done Regenerated (fst (new_key pf)) (snd (new_key pf)), snd (regenerate pf (start fs)))"
proof -
  obtain s' where r: "regenerate pf (start fs) = (None, s')"
    using regenerate_result [of pf "start fs"] by blast
  have "resolve pf privateKeyPath publicKeyPath fs
      = (case regenerate pf (start fs) of
           (Some e, s') \<Rightarrow> (Uncaught e, s')
         | (None, s') \<Rightarrow> (Done Regenerated (fst (new_key pf)) (snd (new_key pf)), s'))"
    using assms by (simp add: resolve_def start_def)
  then show ?thesis by (simp add: r)
qed

lemma try_load_private_unreadable:
  "readFileSync fs (or_default privateKeyPath ''./private.key'') = Inl e \<Longrightarrow>
   try_load pf privateKeyPath publicKeyPath fs = Thrown None None e"
  by (simp add: try_load_def)

lemma try_load_public_unreadable:
  "readFileSync fs (or_default privateKeyPath ''./private.key'') = Inr privateKey \<Longrightarrow>
   readFileSync fs (or_default publicKeyPath ''./public.key'') = Inl e \<Longrightarrow>
   try_load pf privateKeyPath publicKeyPath fs = Thrown (Some privateKey) None e"
  by (simp add: try_load_def)

lemma try_load_tested:
  "readFileSync fs (or_default privateKeyPath ''./private.key'') = Inr privateKey \<Longrightarrow>
   readFileSync fs (or_default publicKeyPath ''./public.key'') = Inr publicKey \<Longrightarrow>
   try_load pf privateKeyPath publicKeyPath fs
     = (case test_keys pf privateKey publicKey of
          Some e \<Rightarrow> Thrown (Some privateKey) (Some publicKey) e
        | None \<Rightarrow> Completed privateKey publicKey)"
  by (simp add: try_load_def)

lemma read_file: "fmlookup fs p = Some (File c m) \<Longrightarrow> readFileSync fs p = Inr c"
  by (simp add: readFileSync_def)

lemma read_missing:
  "fmlookup fs p = None \<Longrightarrow> readFileSync fs p = Inl (ENOENT (''open '' @ quoted p) p)"
  by (simp add: readFileSync_def)

lemma read_directory:
  "fmlookup fs p = Some Dir \<Longrightarrow> readFileSync fs p = Inl (EISDIR ''read'' p)"
  by (simp add: readFileSync_def)

lemma read_Inr_iff: "readFileSync fs p = Inr c \<longleftrightarrow> (\<exists>m. fmlookup fs p = Some (File c m))"
  by (auto simp: readFileSync_def split: option.splits node.splits)

lemma try_load_Thrown_None:
  "try_load pf privateKeyPath publicKeyPath fs = Thrown None publicKey e \<Longrightarrow>
   publicKey = None \<and> readFileSync fs (or_default privateKeyPath ''./private.key'') = Inl e"
  by (auto simp: try_load_def split: sum.splits option.splits)

lemma try_load_Thrown_Some:
  "try_load pf privateKeyPath publicKeyPath fs = Thrown (Some privateKey) publicKey e \<Longrightarrow>
   readFileSync fs (or_default privateKeyPath ''./private.key'') = Inr privateKey"
  by (auto simp: try_load_def split: sum.splits option.splits)

lemma try_load_Completed:
  "try_load pf privateKeyPath publicKeyPath fs = Completed privateKey publicKey \<Longrightarrow>
   readFileSync fs (or_default privateKeyPath ''./private.key'') = Inr privateKey"
  by (auto simp: try_load_def split: sum.splits option.splits)

subsection \<open>A valid pair is loaded\<close>

text \<open>
  C5. With no key path configured, files at both default paths and a pair that passes
  the sign-then-verify test, \<open>resolve\<close> ends with exactly the bytes of the two files, and
  the file system is as before: no write, no rename, no change of mode.
\<close>

theorem valid_pair_loaded_unchanged:
  assumes "\<not> truthy privateKeyPath" and "\<not> truthy publicKeyPath"
    and "fmlookup fs ''./private.key'' = Some (File privateKey m1)"
    and "fmlookup fs ''./public.key'' = Some (File publicKey m2)"
    and "test_keys pf privateKey publicKey = None"
  shows "resolve pf privateKeyPath publicKeyPath fs
     = (Done Loaded privateKey publicKey,
        \<lparr>files = fs, effects = [], console = [Log ''Loaded RSA keypair.'']\<rparr>)"
proof -
  have "readFileSync fs (or_default privateKeyPath ''./private.key'') = Inr privateKey"
    using assms(1,3) by (simp add: or_default_falsy read_file)
  moreover have "readFileSync fs (or_default publicKeyPath ''./public.key'') = Inr publicKey"
    using assms(2,4) by (simp add: or_default_falsy read_file)
  ultimately have "try_load pf privateKeyPath publicKeyPath fs = Completed privateKey publicKey"
    using assms(5) by (simp add: try_load_tested)
  then show ?thesis by (rule resolve_completed)
qed

theorem valid_pair_loaded_unchanged_witness:
  "test_keys test_platform ''good'' ''goodpub'' = None
   \<and> resolve test_platform None None valid_pair
     = (Done Loaded ''good'' ''goodpub'',
        \<lparr>files = valid_pair, effects = [], console = [Log ''Loaded RSA keypair.'']\<rparr>)"
proof -
  have t: "test_keys test_platform ''good'' ''goodpub'' = None"
    by (simp add: test_keys_def test_platform_def)
  have "resolve test_platform None None valid_pair
     = (Done Loaded ''good'' ''goodpub'',
        \<lparr>files = valid_pair, effects = [], console = [Log ''Loaded RSA keypair.'']\<rparr>)"
    by (rule valid_pair_loaded_unchanged [where ?m1.0 = 384 and ?m2.0 = 420])
       (simp_all add: truthy_def valid_pair_def t)
  with t show ?thesis by simp
qed

subsection \<open>Fatal aborts with a configured path\<close>

lemma diagnostic_ENOENT: "diagnostic (ENOENT syscall p) = ''Error: Could not find key at path '' @ p @ ''.''"
  by (simp add: diagnostic_def ENOENT_def system_error_def missing_file_message_def template_def)

lemma messages_distinct: "invalid_pair_message \<noteq> missing_file_message p"
  by (simp add: invalid_pair_message_def missing_file_message_def)

lemma unknown_message_not_missing: "unknown_error_message e \<noteq> missing_file_message p"
  by (simp add: unknown_error_message_def missing_file_message_def)

lemma unknown_message_not_invalid: "unknown_error_message e \<noteq> invalid_pair_message"
  by (simp add: unknown_error_message_def invalid_pair_message_def)

text \<open>
  C6. With a key path configured, when the first read that fails does so because its
  path does not exist, \<open>resolve\<close> exits with status 1 after printing the missing-file line
  that names that path; nothing is generated and the file system is untouched.
\<close>

theorem configured_missing_file_fatal:
  assumes "truthy privateKeyPath \<or> truthy publicKeyPath"
    and "(p = or_default privateKeyPath ''./private.key'' \<and> fmlookup fs p = None)
       \<or> (\<exists>c m. fmlookup fs (or_default privateKeyPath ''./private.key'') = Some (File c m)
            \<and> p = or_default publicKeyPath ''./public.key'' \<and> fmlookup fs p = None)"
  shows "resolve pf privateKeyPath publicKeyPath fs
       = (Exit 1, \<lparr>files = fs, effects = [],
                   console = [Error (''Error: Could not find key at path '' @ p @ ''.'')]\<rparr>)
     \<and> Fatal (fst (resolve pf privateKeyPath publicKeyPath fs))"
proof -
  from assms(2) obtain privateKey publicKey where
    t: "try_load pf privateKeyPath publicKeyPath fs
          = Thrown privateKey publicKey (ENOENT (''open '' @ quoted p) p)"
  proof (elim disjE conjE exE)
    assume "p = or_default privateKeyPath ''./private.key''" and "fmlookup fs p = None"
    then have "try_load pf privateKeyPath publicKeyPath fs
        = Thrown None None (ENOENT (''open '' @ quoted p) p)"
      by (simp add: try_load_private_unreadable read_missing)
    then show ?thesis by (rule that)
  next
    fix c m
    assume "fmlookup fs (or_default privateKeyPath ''./private.key'') = Some (File c m)"
      and "p = or_default publicKeyPath ''./public.key''" and "fmlookup fs p = None"
    then have "try_load pf privateKeyPath publicKeyPath fs
        = Thrown (Some c) None (ENOENT (''open '' @ quoted p) p)"
      by (simp add: try_load_public_unreadable read_missing read_file)
    then show ?thesis by (rule that)
  qed
  have "resolve pf privateKeyPath publicKeyPath fs
       = (Exit 1, \<lparr>files = fs, effects = [],
            console = [Error (diagnostic (ENOENT (''open '' @ quoted p) p))]\<rparr>)"
    using t by (rule resolve_exit) (use assms(1) in blast)
  then show ?thesis by (simp add: diagnostic_ENOENT)
qed

theorem configured_missing_file_fatal_witness:
  "truthy (Some ''/etc/login/private.key'')
   \<and> fmlookup only_public ''/etc/login/private.key'' = None
   \<and> resolve test_platform (Some ''/etc/login/private.key'') None only_public
       = (Exit 1, \<lparr>files = only_public, effects = [],
            console = [Error ''Error: Could not find key at path /etc/login/private.key.'']\<rparr>)"
proof -
  have a: "truthy (Some ''/etc/login/private.key'')" by (simp add: truthy_def)
  have b: "fmlookup only_public ''/etc/login/private.key'' = None"
    by (simp add: only_public_def)
  have c: "or_default (Some ''/etc/login/private.key'') ''./private.key'' = ''/etc/login/private.key''"
    by (simp add: or_default_def)
  from configured_missing_file_fatal
    [of "Some ''/etc/login/private.key''" None "''/etc/login/private.key''" only_public test_platform]
    a b c
  show ?thesis by simp
qed

text \<open>
  C7. With a key path configured and two files that are read, a test that fails with a
  \<open>JsonWebTokenError\<close> makes \<open>resolve\<close> exit with status 1 after printing the
  validation-failure line, which differs from every missing-file line.
\<close>

theorem configured_invalid_pair_fatal:
  assumes "truthy privateKeyPath \<or> truthy publicKeyPath"
    and "fmlookup fs (or_default privateKeyPath ''./private.key'') = Some (File privateKey m1)"
    and "fmlookup fs (or_default publicKeyPath ''./public.key'') = Some (File publicKey m2)"
    and "test_keys pf privateKey publicKey = Some error"
    and "errorName error = ''JsonWebTokenError''"
  shows "resolve pf privateKeyPath publicKeyPath fs
       = (Exit 1, \<lparr>files = fs, effects = [],
            console = [Error ''Error: Testing provided keypair failed (could not verify a signed token).'']\<rparr>)
     \<and> Fatal (fst (resolve pf privateKeyPath publicKeyPath fs))
     \<and> (\<forall>p. ''Error: Testing provided keypair failed (could not verify a signed token).''
            \<noteq> missing_file_message p)"
proof -
  have "try_load pf privateKeyPath publicKeyPath fs
      = Thrown (Some privateKey) (Some publicKey) error"
    using assms(2,3,4) by (simp add: try_load_tested read_file)
  then have "resolve pf privateKeyPath publicKeyPath fs
       = (Exit 1, \<lparr>files = fs, effects = [], console = [Error (diagnostic error)]\<rparr>)"
    by (rule resolve_exit) simp
  moreover have "diagnostic error = invalid_pair_message"
    using assms(5) by (simp add: diagnostic_def)
  moreover have "invalid_pair_message
      = ''Error: Testing provided keypair failed (could not verify a signed token).''"
    by (simp add: invalid_pair_message_def)
  ultimately show ?thesis using messages_distinct by simp
qed

theorem configured_invalid_pair_fatal_witness:
  "test_keys test_platform ''good'' ''other''
     = Some \<lparr>errorName = ''JsonWebTokenError'', errorCode = None, errorPath = None,
             errorMessage = ''invalid signature''\<rparr>
   \<and> resolve test_platform (Some ''/etc/login/private.key'') (Some ''/etc/login/public.key'')
         configured_invalid
       = (Exit 1, \<lparr>files = configured_invalid, effects = [],
            console = [Error ''Error: Testing provided keypair failed (could not verify a signed token).'']\<rparr>)"
proof -
  have t: "test_keys test_platform ''good'' ''other''
     = Some \<lparr>errorName = ''JsonWebTokenError'', errorCode = None, errorPath = None,
             errorMessage = ''invalid signature''\<rparr>"
    by (simp add: test_keys_def test_platform_def)
  have "resolve test_platform (Some ''/etc/login/private.key'') (Some ''/etc/login/public.key'')
         configured_invalid
       = (Exit 1, \<lparr>files = configured_invalid, effects = [],
            console = [Error ''Error: Testing provided keypair failed (could not verify a signed token).'']\<rparr>)
     \<and> Fatal (fst (resolve test_platform (Some ''/etc/login/private.key'')
           (Some ''/etc/login/public.key'') configured_invalid))
     \<and> (\<forall>p. ''Error: Testing provided keypair failed (could not verify a signed token).''
            \<noteq> missing_file_message p)"
    by (rule configured_invalid_pair_fatal [where ?m1.0 = 384 and ?m2.0 = 420 and privateKey = "''good''"
          and publicKey = "''other''"], simp add: truthy_def,
        simp add: or_default_def configured_invalid_def,
        simp add: or_default_def configured_invalid_def, rule t, simp)
  with t show ?thesis by blast
qed

subsection \<open>An invalid pair at the default paths\<close>

text \<open>
  C1 (as stated, fails). The catch block regenerates only when both variables are still
  \<open>undefined\<close>. With files at both default paths the two reads succeed, so a failed test
  ends in \<open>process.exit(1)\<close>: nothing is renamed and nothing is written.
\<close>

theorem invalid_default_pair_counterexample:
  "test_keys test_platform ''bad'' ''badpub'' \<noteq> None
   \<and> resolve test_platform None None invalid_pair
       = (Exit 1, \<lparr>files = invalid_pair, effects = [],
            console = [Error ''Error: Testing provided keypair failed (could not verify a signed token).'']\<rparr>)"
  by (simp add: resolve_def start_def try_load_def readFileSync_def or_default_def invalid_pair_def
        test_keys_def test_platform_def truthy_def print_def diagnostic_def invalid_pair_message_def)

text \<open>
  C1 (amended). With no key path configured, files at both default paths and a pair that
  fails the test, \<open>resolve\<close> exits with status 1 after printing the diagnostic of the
  error (the validation-failure line for a \<open>JsonWebTokenError\<close>); the file system is
  untouched.
\<close>

theorem invalid_default_pair_fatal:
  assumes "\<not> truthy privateKeyPath" and "\<not> truthy publicKeyPath"
    and "fmlookup fs ''./private.key'' = Some (File privateKey m1)"
    and "fmlookup fs ''./public.key'' = Some (File publicKey m2)"
    and "test_keys pf privateKey publicKey = Some error"
  shows "resolve pf privateKeyPath publicKeyPath fs
       = (Exit 1, \<lparr>files = fs, effects = [], console = [Error (diagnostic error)]\<rparr>)
     \<and> Fatal (fst (resolve pf privateKeyPath publicKeyPath fs))
     \<and> (errorName error = ''JsonWebTokenError'' \<longrightarrow> diagnostic error
           = ''Error: Testing provided keypair failed (could not verify a signed token).'')"
proof -
  have "readFileSync fs (or_default privateKeyPath ''./private.key'') = Inr privateKey"
    using assms(1,3) by (simp add: or_default_falsy read_file)
  moreover have "readFileSync fs (or_default publicKeyPath ''./public.key'') = Inr publicKey"
    using assms(2,4) by (simp add: or_default_falsy read_file)
  ultimately have "try_load pf privateKeyPath publicKeyPath fs
      = Thrown (Some privateKey) (Some publicKey) error"
    using assms(5) by (simp add: try_load_tested)
  then have "resolve pf privateKeyPath publicKeyPath fs
       = (Exit 1, \<lparr>files = fs, effects = [], console = [Error (diagnostic error)]\<rparr>)"
    by (rule resolve_exit) simp
  then show ?thesis by (simp add: diagnostic_def invalid_pair_message_def)
qed

theorem invalid_default_pair_fatal_witness:
  "test_keys test_platform ''bad'' ''badpub''
     = Some \<lparr>errorName = ''JsonWebTokenError'', errorCode = None, errorPath = None,
             errorMessage = ''secretOrPrivateKey must be an asymmetric key''\<rparr>
   \<and> Fatal (fst (resolve test_platform None None invalid_pair))
   \<and> snd (resolve test_platform None None invalid_pair)
       = \<lparr>files = invalid_pair, effects = [],
          console = [Error ''Error: Testing provided keypair failed (could not verify a signed token).'']\<rparr>"
proof -
  have t: "test_keys test_platform ''bad'' ''badpub''
     = Some \<lparr>errorName = ''JsonWebTokenError'', errorCode = None, errorPath = None,
             errorMessage = ''secretOrPrivateKey must be an asymmetric key''\<rparr>"
    by (simp add: test_keys_def test_platform_def)
  have f: "\<not> truthy None" by (simp add: truthy_def)
  have a: "fmlookup invalid_pair ''./private.key'' = Some (File ''bad'' 384)"
    and b: "fmlookup invalid_pair ''./public.key'' = Some (File ''badpub'' 420)"
    by (simp_all add: invalid_pair_def)
  from invalid_default_pair_fatal [OF f f a b t] t show ?thesis by simp
qed

subsection \<open>Errors of unknown kind\<close>

text \<open>
  C3 (as stated, fails). A directory at \<open>./private.key\<close> makes the first read throw
  \<open>EISDIR\<close>, which is neither \<open>ENOENT\<close> nor a \<open>JsonWebTokenError\<close>. With no key path
  configured both variables are \<open>undefined\<close>, the guard of line 97 is false, and the
  catch block regenerates: the directory is renamed and new keys are written.
\<close>

theorem unknown_read_error_counterexample:
  "readFileSync private_is_directory ''./private.key'' = Inl (EISDIR ''read'' ''./private.key'')
   \<and> diagnostic (EISDIR ''read'' ''./private.key'')
       = unknown_error_message (EISDIR ''read'' ''./private.key'')
   \<and> fst (resolve test_platform None None private_is_directory)
       = Done Regenerated ''newpriv'' ''newpub''
   \<and> \<not> Fatal (fst (resolve test_platform None None private_is_directory))
   \<and> effects (snd (resolve test_platform None None private_is_directory))
       = [Rename ''./private.key'' ''./private.backup.1.key'',
          Write ''./private.key'' ''newpriv'', Chmod ''./private.key'' ''600'',
          Write ''./public.key'' ''newpub'', Chmod ''./public.key'' ''644'']"
  by code_simp

text \<open>
  C3 (amended). When the try block throws an error that is neither \<open>ENOENT\<close> nor a
  \<open>JsonWebTokenError\<close>, \<open>resolve\<close> exits with status 1, after printing the unknown-error
  line and without touching the file system, exactly when a key path is configured or a
  key had been read before the throw. Otherwise it regenerates.
\<close>

theorem unknown_error_fatal_iff:
  assumes "try_load pf privateKeyPath publicKeyPath fs = Thrown privateKey publicKey error"
    and "unknown_error error"
  shows "(truthy privateKeyPath \<or> truthy publicKeyPath \<or> privateKey \<noteq> None \<or> publicKey \<noteq> None
            \<longrightarrow> resolve pf privateKeyPath publicKeyPath fs
                 = (Exit 1, \<lparr>files = fs, effects = [],
                      console = [Error (unknown_error_message error)]\<rparr>))
       \<and> (Fatal (fst (resolve pf privateKeyPath publicKeyPath fs))
            \<longleftrightarrow> truthy privateKeyPath \<or> truthy publicKeyPath \<or> privateKey \<noteq> None \<or> publicKey \<noteq> None)
       \<and> (\<not> Fatal (fst (resolve pf privateKeyPath publicKeyPath fs))
            \<longrightarrow> fst (resolve pf privateKeyPath publicKeyPath fs)
                 = Done Regenerated (fst (new_key pf)) (snd (new_key pf)))"
proof (cases "truthy privateKeyPath \<or> truthy publicKeyPath \<or> privateKey \<noteq> None \<or> publicKey \<noteq> None")
  case True
  with assms(1) have "resolve pf privateKeyPath publicKeyPath fs
       = (Exit 1, \<lparr>files = fs, effects = [], console = [Error (diagnostic error)]\<rparr>)"
    by (rule resolve_exit)
  moreover have "diagnostic error = unknown_error_message error"
    using assms(2) by (auto simp: diagnostic_def unknown_error_def)
  ultimately show ?thesis using True by simp
next
  case False
  then have "try_load pf privateKeyPath publicKeyPath fs = Thrown None None error"
    using assms(1) by simp
  then have "resolve pf privateKeyPath publicKeyPath fs
     = (Done Regenerated (fst (new_key pf)) (snd (new_key pf)), snd (regenerate pf (start fs)))"
    using False by (intro resolve_regenerate) simp_all
  then show ?thesis using False by simp
qed

theorem unknown_error_fatal_iff_witness:
  "try_load test_platform (Some ''/etc/login/private.key'') None configured_directory
     = Thrown None None (EISDIR ''read'' ''/etc/login/private.key'')
   \<and> unknown_error (EISDIR ''read'' ''/etc/login/private.key'')
   \<and> resolve test_platform (Some ''/etc/login/private.key'') None configured_directory
     = (Exit 1, \<lparr>files = configured_directory, effects = [],
          console = [Error ''Error: Unkown error when loading keypair. (Error, EISDIR, EISDIR: illegal operation on a directory, read)'']\<rparr>)"
proof -
  have t: "try_load test_platform (Some ''/etc/login/private.key'') None configured_directory
     = Thrown None None (EISDIR ''read'' ''/etc/login/private.key'')"
    by (simp add: try_load_def readFileSync_def or_default_def configured_directory_def)
  have u: "unknown_error (EISDIR ''read'' ''/etc/login/private.key'')"
    by (simp add: unknown_error_def EISDIR_def system_error_def)
  have c: "truthy (Some ''/etc/login/private.key'')" by (simp add: truthy_def)
  have m: "unknown_error_message (EISDIR ''read'' ''/etc/login/private.key'')
     = ''Error: Unkown error when loading keypair. (Error, EISDIR, EISDIR: illegal operation on a directory, read)''"
    by (simp add: unknown_error_message_def EISDIR_def system_error_def template_def)
  from unknown_error_fatal_iff [OF t u] c
  have "resolve test_platform (Some ''/etc/login/private.key'') None configured_directory
     = (Exit 1, \<lparr>files = configured_directory, effects = [],
          console = [Error (unknown_error_message (EISDIR ''read'' ''/etc/login/private.key''))]\<rparr>)"
    by blast
  with t u m show ?thesis by simp
qed

subsection \<open>When the keys are regenerated\<close>

text \<open>
  C4 (as stated, fails). \<open>readFileSync\<close> returns a \<open>Buffer\<close>, and a \<open>Buffer\<close> of length
  0 is truthy. With an empty file at \<open>./private.key\<close> and nothing else, the read of
  \<open>./public.key\<close> throws with \<open>privateKey\<close> set, and the catch block exits.
\<close>

theorem empty_private_file_counterexample:
  "fmlookup empty_private ''./private.key'' = Some (File [] 384)
   \<and> resolve test_platform None None empty_private
     = (Exit 1, \<lparr>files = empty_private, effects = [],
          console = [Error ''Error: Could not find key at path ./public.key.'']\<rparr>)"
  by (simp add: resolve_def start_def try_load_def readFileSync_def or_default_def empty_private_def
        truthy_def print_def diagnostic_def ENOENT_def system_error_def missing_file_message_def
        template_def)

text \<open>
  C4 (amended). \<open>resolve\<close> regenerates exactly when no key path is configured and the
  read of \<open>./private.key\<close> fails, so that no key was read. A file that is read counts as a
  key whatever its length: with an empty file at \<open>./private.key\<close>, \<open>resolve\<close> never
  regenerates.
\<close>

theorem regenerates_iff:
  "((\<exists>privateKey publicKey.
        fst (resolve pf privateKeyPath publicKeyPath fs) = Done Regenerated privateKey publicKey)
      \<longleftrightarrow> \<not> truthy privateKeyPath \<and> \<not> truthy publicKeyPath
          \<and> (\<forall>bytes. readFileSync fs ''./private.key'' \<noteq> Inr bytes))
   \<and> (\<not> truthy privateKeyPath \<and> \<not> truthy publicKeyPath
        \<and> (\<exists>m. fmlookup fs ''./private.key'' = Some (File [] m))
      \<longrightarrow> (\<forall>privateKey publicKey.
            fst (resolve pf privateKeyPath publicKeyPath fs) \<noteq> Done Regenerated privateKey publicKey))"
proof -
  have main: "(\<exists>privateKey publicKey.
        fst (resolve pf privateKeyPath publicKeyPath fs) = Done Regenerated privateKey publicKey)
      \<longleftrightarrow> \<not> truthy privateKeyPath \<and> \<not> truthy publicKeyPath
          \<and> (\<forall>bytes. readFileSync fs ''./private.key'' \<noteq> Inr bytes)"
  proof (cases "try_load pf privateKeyPath publicKeyPath fs")
    case (Completed a b)
    then have "fst (resolve pf privateKeyPath publicKeyPath fs) = Done Loaded a b"
      by (simp add: resolve_completed)
    moreover from Completed
    have "readFileSync fs (or_default privateKeyPath ''./private.key'') = Inr a"
      by (rule try_load_Completed)
    ultimately show ?thesis by (auto simp: or_default_falsy)
  next
    case (Thrown a b e)
    show ?thesis
    proof (cases "truthy privateKeyPath \<or> truthy publicKeyPath \<or> a \<noteq> None \<or> b \<noteq> None")
      case True
      with Thrown have r: "fst (resolve pf privateKeyPath publicKeyPath fs) = Exit 1"
        by (simp add: resolve_exit)
      show ?thesis
      proof (cases a)
        case None
        with Thrown have "b = None" using try_load_Thrown_None by blast
        with True None r show ?thesis by auto
      next
        case (Some x)
        with Thrown have "readFileSync fs (or_default privateKeyPath ''./private.key'') = Inr x"
          using try_load_Thrown_Some by blast
        with r show ?thesis by (auto simp: or_default_falsy)
      qed
    next
      case False
      then have f: "\<not> truthy privateKeyPath" "\<not> truthy publicKeyPath" "a = None" "b = None"
        by simp_all
      with Thrown have "readFileSync fs ''./private.key'' = Inl e"
        using try_load_Thrown_None [of pf privateKeyPath publicKeyPath fs b e]
        by (simp add: or_default_falsy)
      moreover from Thrown f
      have "fst (resolve pf privateKeyPath publicKeyPath fs)
          = Done Regenerated (fst (new_key pf)) (snd (new_key pf))"
        by (simp add: resolve_regenerate)
      ultimately show ?thesis using f by simp
    qed
  qed
  have "\<exists>bytes. readFileSync fs ''./private.key'' = Inr bytes"
    if "fmlookup fs ''./private.key'' = Some (File [] m)" for m
    using that by (simp add: read_file)
  with main show ?thesis by blast
qed

theorem regenerates_iff_witness:
  "\<not> truthy None \<and> (\<forall>bytes. readFileSync fmempty ''./private.key'' \<noteq> Inr bytes)
   \<and> fst (resolve test_platform None None fmempty) = Done Regenerated ''newpriv'' ''newpub''
   \<and> fst (resolve test_platform None None empty_private) \<noteq> Done Regenerated ''newpriv'' ''newpub''"
proof -
  have a: "\<not> truthy None" by (simp add: truthy_def)
  have b: "\<forall>bytes. readFileSync fmempty ''./private.key'' \<noteq> Inr bytes"
    by (simp add: readFileSync_def)
  have c: "fmlookup empty_private ''./private.key'' = Some (File [] 384)"
    by (simp add: empty_private_def)
  have d: "fst (resolve test_platform None None fmempty) = Done Regenerated ''newpriv'' ''newpub''"
    by code_simp
  from regenerates_iff [of test_platform None None empty_private] a c
  have "fst (resolve test_platform None None empty_private) \<noteq> Done Regenerated ''newpriv'' ''newpub''"
    by blast
  with a b d show ?thesis by simp
qed

subsection \<open>The saved keys and their modes\<close>

lemma regenerated_only_by_regenerate:
  assumes "fst (resolve pf privateKeyPath publicKeyPath fs) = Done Regenerated privateKey publicKey"
  shows "resolve pf privateKeyPath publicKeyPath fs
     = (Done Regenerated (fst (new_key pf)) (snd (new_key pf)), snd (regenerate pf (start fs)))"
proof (cases "try_load pf privateKeyPath publicKeyPath fs")
  case (Completed a b)
  then have "fst (resolve pf privateKeyPath publicKeyPath fs) = Done Loaded a b"
    by (simp add: resolve_completed)
  with assms show ?thesis by simp
next
  case (Thrown a b e)
  show ?thesis
  proof (cases "truthy privateKeyPath \<or> truthy publicKeyPath \<or> a \<noteq> None \<or> b \<noteq> None")
    case True
    with Thrown have "fst (resolve pf privateKeyPath publicKeyPath fs) = Exit 1"
      by (simp add: resolve_exit)
    with assms show ?thesis by simp
  next
    case False
    with Thrown show ?thesis by (simp add: resolve_regenerate)
  qed
qed

text \<open>
  C8. Whenever \<open>resolve\<close> ends with a regenerated pair, the last four mutations are the
  write of the private key, its \<open>chmod\<close> to \<open>600\<close>, the write of the public key and its
  \<open>chmod\<close> to \<open>644\<close>; afterwards \<open>./private.key\<close> holds the new private key with mode
  \<open>0o600\<close> (owner read and write, nothing else) and \<open>./public.key\<close> the new public key
  with mode \<open>0o644\<close> (owner read and write, group and others read).
\<close>

theorem regenerated_keys_saved_with_modes:
  assumes "fst (resolve pf privateKeyPath publicKeyPath fs) = Done Regenerated privateKey publicKey"
  shows "privateKey = fst (new_key pf) \<and> publicKey = snd (new_key pf)
     \<and> fmlookup (files (snd (resolve pf privateKeyPath publicKeyPath fs))) ''./private.key''
         = Some (File privateKey (6 * 8 ^ 2 + 0 * 8 + 0))
     \<and> fmlookup (files (snd (resolve pf privateKeyPath publicKeyPath fs))) ''./public.key''
         = Some (File publicKey (6 * 8 ^ 2 + 4 * 8 + 4))
     \<and> (\<exists>renames. effects (snd (resolve pf privateKeyPath publicKeyPath fs))
           = renames @ [Write ''./private.key'' privateKey, Chmod ''./private.key'' ''600'',
                        Write ''./public.key'' publicKey, Chmod ''./public.key'' ''644''])"
proof -
  let ?r = "rotated (start fs\<lparr>console := console (start fs) @ [generating]\<rparr>)"
  have r: "resolve pf privateKeyPath publicKeyPath fs
     = (Done Regenerated (fst (new_key pf)) (snd (new_key pf)), snd (regenerate pf (start fs)))"
    using assms by (rule regenerated_only_by_regenerate)
  with assms have keys: "privateKey = fst (new_key pf)" "publicKey = snd (new_key pf)"
    by simp_all
  have s: "snd (resolve pf privateKeyPath publicKeyPath fs)
     = ?r\<lparr>files := fmupd ''./public.key'' (File (snd (new_key pf)) 420)
                       (fmupd ''./private.key'' (File (fst (new_key pf)) 384) (files ?r)),
            effects := effects ?r @
                     [Write ''./private.key'' (fst (new_key pf)), Chmod ''./private.key'' ''600'',
                      Write ''./public.key'' (snd (new_key pf)), Chmod ''./public.key'' ''644'']\<rparr>"
    by (simp add: r regenerate_result)
  have a: "fmlookup (files (snd (resolve pf privateKeyPath publicKeyPath fs))) ''./private.key''
         = Some (File privateKey (6 * 8 ^ 2 + 0 * 8 + 0))"
    by (simp add: s keys)
  have b: "fmlookup (files (snd (resolve pf privateKeyPath publicKeyPath fs))) ''./public.key''
         = Some (File publicKey (6 * 8 ^ 2 + 4 * 8 + 4))"
    by (simp add: s keys)
  have c: "effects (snd (resolve pf privateKeyPath publicKeyPath fs))
           = effects ?r @ [Write ''./private.key'' privateKey, Chmod ''./private.key'' ''600'',
                        Write ''./public.key'' publicKey, Chmod ''./public.key'' ''644'']"
    by (simp add: s keys)
  from keys a b c show ?thesis by blast
qed

theorem regenerated_keys_saved_with_modes_witness:
  "fst (resolve test_platform None None fmempty) = Done Regenerated ''newpriv'' ''newpub''
   \<and> fmlookup (files (snd (resolve test_platform None None fmempty))) ''./private.key''
       = Some (File ''newpriv'' 384)
   \<and> fmlookup (files (snd (resolve test_platform None None fmempty))) ''./public.key''
       = Some (File ''newpub'' 420)"
proof -
  have d: "fst (resolve test_platform None None fmempty) = Done Regenerated ''newpriv'' ''newpub''"
    by code_simp
  from regenerated_keys_saved_with_modes [OF d] d show ?thesis by simp
qed

subsection \<open>A lone public key\<close>

text \<open>
  C10. With no key path configured, no entry at \<open>./private.key\<close> and an entry at
  \<open>./public.key\<close>, the first read throws before the public key is looked at, and
  \<open>resolve\<close> regenerates. The private side renames nothing. The public side renames
  \<open>./public.key\<close> to \<open>./public.backup.N.key\<close> for the smallest \<open>N \<ge> 1\<close> whose name is
  free, so the old entry is kept there, and the new keys are then written.
\<close>

theorem lone_public_key_backed_up:
  assumes "\<not> truthy privateKeyPath" and "\<not> truthy publicKeyPath"
    and "fmlookup fs ''./private.key'' = None"
    and "fmlookup fs ''./public.key'' = Some old"
  shows "fst (resolve pf privateKeyPath publicKeyPath fs)
           = Done Regenerated (fst (new_key pf)) (snd (new_key pf))
     \<and> 0 < scan fs ''./public'' 0
     \<and> (\<forall>j < scan fs ''./public'' 0. existsSync fs (key_file ''./public'' j))
     \<and> \<not> existsSync fs (''./public.backup.'' @ show_nat (scan fs ''./public'' 0) @ ''.key'')
     \<and> effects (snd (resolve pf privateKeyPath publicKeyPath fs))
         = [Rename ''./public.key'' (''./public.backup.'' @ show_nat (scan fs ''./public'' 0) @ ''.key''),
            Write ''./private.key'' (fst (new_key pf)), Chmod ''./private.key'' ''600'',
            Write ''./public.key'' (snd (new_key pf)), Chmod ''./public.key'' ''644'']
     \<and> fmlookup (files (snd (resolve pf privateKeyPath publicKeyPath fs)))
           (''./public.backup.'' @ show_nat (scan fs ''./public'' 0) @ ''.key'') = Some old
     \<and> fmlookup (files (snd (resolve pf privateKeyPath publicKeyPath fs))) ''./public.key''
         = Some (File (snd (new_key pf)) 420)
     \<and> fmlookup (files (snd (resolve pf privateKeyPath publicKeyPath fs))) ''./private.key''
         = Some (File (fst (new_key pf)) 384)"
proof -
  let ?N = "scan fs ''./public'' 0"
  let ?s1 = "start fs\<lparr>console := console (start fs) @ [generating]\<rparr>"
  let ?r = "rotated ?s1"
  have files1: "files ?s1 = fs" and effects1: "effects ?s1 = []" by (simp_all add: start_def)
  have "readFileSync fs (or_default privateKeyPath ''./private.key'')
      = Inl (ENOENT (''open '' @ quoted ''./private.key'') ''./private.key'')"
    using assms(1,3) by (simp add: or_default_falsy read_missing)
  then have "try_load pf privateKeyPath publicKeyPath fs
      = Thrown None None (ENOENT (''open '' @ quoted ''./private.key'') ''./private.key'')"
    by (rule try_load_private_unreadable)
  then have r: "resolve pf privateKeyPath publicKeyPath fs
     = (Done Regenerated (fst (new_key pf)) (snd (new_key pf)), snd (regenerate pf (start fs)))"
    using assms(1,2) by (rule resolve_regenerate)
  have s: "snd (resolve pf privateKeyPath publicKeyPath fs)
     = ?r\<lparr>files := fmupd ''./public.key'' (File (snd (new_key pf)) 420)
                       (fmupd ''./private.key'' (File (fst (new_key pf)) 384) (files ?r)),
            effects := effects ?r @
                     [Write ''./private.key'' (fst (new_key pf)), Chmod ''./private.key'' ''600'',
                      Write ''./public.key'' (snd (new_key pf)), Chmod ''./public.key'' ''644'']\<rparr>"
    by (simp add: r regenerate_result)
  have "scan (files ?s1) ''./private'' 0 = 0"
    using assms(3) by (simp add: scan_zero_iff existsSync_def key_file_0 files1)
  then have private_side: "snd (backup ''./private'' ?s1) = ?s1"
    by (simp add: backup_nothing)
  then have rot: "?r = snd (backup ''./public'' ?s1)" by (simp add: rotated_def)
  have pos: "0 < ?N"
    using assms(4) scan_zero_iff [of fs "''./public''"]
    by (simp add: existsSync_def key_file_0)
  then have name: "key_file ''./public'' ?N = ''./public.backup.'' @ show_nat ?N @ ''.key''"
    by (simp add: key_file_pos)
  from pos have pos1: "0 < scan (files ?s1) ''./public'' 0" by (simp add: files1)
  have eff: "effects ?r = [Rename ''./public.key'' (key_file ''./public'' ?N)]"
    using backup_effects [OF pos1] by (simp add: rot files1 effects1 key_file_0)
  obtain n where n: "fmlookup (files ?s1) (key_file ''./public'' 0) = Some n"
    and f: "files ?r = fmupd (key_file ''./public'' ?N) n (fmdrop (key_file ''./public'' 0) fs)"
    using backup_files [OF pos1] by (auto simp: rot files1)
  from n assms(4) have "n = old" by (simp add: files1 key_file_0)
  have occupied: "\<forall>j < ?N. existsSync fs (key_file ''./public'' j)"
    using scan_occupied [of 0 _ fs "''./public''"] by simp
  have free: "\<not> existsSync fs (key_file ''./public'' ?N)" by (rule scan_free)
  have ne1: "key_file ''./public'' ?N \<noteq> ''./public.key''"
    using pos by (simp add: key_file_def)
  have ne2: "key_file ''./public'' ?N \<noteq> ''./private.key''"
    by (rule public_backup_not_private)
  have kept: "fmlookup (files (snd (resolve pf privateKeyPath publicKeyPath fs)))
      (key_file ''./public'' ?N) = Some old"
    using ne1 ne2 by (simp add: s f \<open>n = old\<close>)
  have e: "effects (snd (resolve pf privateKeyPath publicKeyPath fs))
         = [Rename ''./public.key'' (key_file ''./public'' ?N),
            Write ''./private.key'' (fst (new_key pf)), Chmod ''./private.key'' ''600'',
            Write ''./public.key'' (snd (new_key pf)), Chmod ''./public.key'' ''644'']"
    by (simp add: s eff)
  have pub: "fmlookup (files (snd (resolve pf privateKeyPath publicKeyPath fs))) ''./public.key''
         = Some (File (snd (new_key pf)) 420)"
    by (simp add: s)
  have priv: "fmlookup (files (snd (resolve pf privateKeyPath publicKeyPath fs))) ''./private.key''
         = Some (File (fst (new_key pf)) 384)"
    by (simp add: s)
  have out: "fst (resolve pf privateKeyPath publicKeyPath fs)
           = Done Regenerated (fst (new_key pf)) (snd (new_key pf))"
    by (simp add: r)
  from out pos occupied free e kept pub priv show ?thesis
    unfolding name by (intro conjI)
qed

theorem lone_public_key_backed_up_witness:
  "\<not> truthy None \<and> fmlookup only_public ''./private.key'' = None
   \<and> fmlookup only_public ''./public.key'' = Some (File ''goodpub'' 420)
   \<and> scan only_public ''./public'' 0 = 1
   \<and> effects (snd (resolve test_platform None None only_public))
       = [Rename ''./public.key'' ''./public.backup.1.key'',
          Write ''./private.key'' ''newpriv'', Chmod ''./private.key'' ''600'',
          Write ''./public.key'' ''newpub'', Chmod ''./public.key'' ''644'']
   \<and> fmlookup (files (snd (resolve test_platform None None only_public))) ''./public.backup.1.key''
       = Some (File ''goodpub'' 420)"
proof -
  have a: "\<not> truthy None" by (simp add: truthy_def)
  have b: "fmlookup only_public ''./private.key'' = None"
    and c: "fmlookup only_public ''./public.key'' = Some (File ''goodpub'' 420)"
    by (simp_all add: only_public_def)
  have N: "scan only_public ''./public'' 0 = 1" by code_simp
  have k: "new_key test_platform = (''newpriv'', ''newpub'')" by (simp add: test_platform_def)
  have sh: "show_nat 1 = ''1''" by code_simp
  from lone_public_key_backed_up [OF a a b c, of test_platform] a b c N
  show ?thesis unfolding N k sh by simp
qed

subsection \<open>Integers as doubles\<close>

lemma bit_length_nonpos: "a \<le> 0 \<Longrightarrow> bit_length a = 0"
  by (subst bit_length.simps) simp

lemma bit_length_pos: "0 < a \<Longrightarrow> bit_length a = Suc (bit_length (a div 2))"
  by (subst bit_length.simps) simp

lemma bit_length_bounds: "0 < a \<Longrightarrow> 2 ^ (bit_length a - 1) \<le> a \<and> a < 2 ^ bit_length a"
proof (induction a rule: bit_length.induct)
  case (1 n)
  show ?case
  proof (cases "n div 2 = 0")
    case True
    with "1.prems" have "n = 1" by presburger
    then show ?thesis by (simp add: bit_length_pos bit_length_nonpos)
  next
    case False
    with "1.prems" have pos: "0 < n div 2" by presburger
    with "1.IH" "1.prems" have ih: "2 ^ (bit_length (n div 2) - 1) \<le> n div 2"
      "n div 2 < 2 ^ bit_length (n div 2)" by simp_all
    from pos have "0 < bit_length (n div 2)" by (simp add: bit_length_pos)
    then obtain k where k: "bit_length (n div 2) = Suc k" by (cases "bit_length (n div 2)") auto
    have L: "bit_length n = Suc (Suc k)" using "1.prems" k by (simp add: bit_length_pos)
    from ih k have "2 ^ k \<le> n div 2" "n div 2 < 2 * 2 ^ k" by simp_all
    then have "2 * 2 ^ k \<le> n" "n < 2 * (2 * 2 ^ k)" by presburger+
    then show ?thesis by (simp add: L)
  qed
qed

lemma bit_length_le: "a < 2 ^ k \<Longrightarrow> bit_length a \<le> k"
proof (cases "0 < a")
  case True
  assume "a < 2 ^ k"
  with bit_length_bounds [OF True] have "(2::int) ^ (bit_length a - 1) < 2 ^ k" by linarith
  then have "bit_length a - 1 < k" by simp
  then show ?thesis by linarith
next
  case False
  then show ?thesis by (simp add: bit_length_nonpos)
qed

lemma bit_length_gt: "2 ^ k \<le> a \<Longrightarrow> k < bit_length a"
proof -
  assume a: "2 ^ k \<le> a"
  have "(0::int) < 2 ^ k" by simp
  with a have "0 < a" by linarith
  with bit_length_bounds a have "(2::int) ^ k < 2 ^ bit_length a" by (meson le_less_trans)
  then show ?thesis by simp
qed

lemma round_at_0: "round_at 0 a = a"
  by (simp add: round_at_def)

lemma round_at_lower: "a div 2 ^ e * 2 ^ e \<le> round_at e a"
  by (simp add: round_at_def Let_def)

lemma round_at_upper: "round_at e a \<le> (a div 2 ^ e + 1) * 2 ^ e"
  by (simp add: round_at_def Let_def)

lemma round_at_down: "2 * (a mod 2 ^ e) < 2 ^ e \<Longrightarrow> round_at e a = a div 2 ^ e * 2 ^ e"
  by (simp add: round_at_def Let_def)

lemma round_at_up:
  "2 ^ e \<le> 2 * (a mod 2 ^ e) \<Longrightarrow> odd (a div 2 ^ e) \<Longrightarrow> round_at e a = (a div 2 ^ e + 1) * 2 ^ e"
  by (auto simp: round_at_def Let_def)

lemma div_lower: "(c::int) * 2 ^ e \<le> a \<Longrightarrow> c \<le> a div 2 ^ e"
proof -
  assume "c * 2 ^ e \<le> a"
  then have "c * 2 ^ e div 2 ^ e \<le> a div 2 ^ e" by (rule zdiv_mono1) simp
  then show ?thesis by simp
qed

lemma div_mult_le: "(a::int) div 2 ^ e * 2 ^ e \<le> a"
proof -
  have "a = a div 2 ^ e * 2 ^ e + a mod 2 ^ e" by (rule div_mult_mod_eq [symmetric])
  moreover have "0 \<le> a mod (2::int) ^ e" by simp
  ultimately show ?thesis by linarith
qed

lemma div_upper: "a < (c::int) * 2 ^ e \<Longrightarrow> a div 2 ^ e < c"
proof (rule ccontr)
  assume a: "a < c * 2 ^ e" and "\<not> a div 2 ^ e < c"
  then have "c \<le> a div 2 ^ e" by simp
  then have "c * 2 ^ e \<le> a div 2 ^ e * 2 ^ e" by (simp add: mult_right_mono)
  with div_mult_le [of a e] a show False by linarith
qed

text \<open>The largest double is \<open>(2^53 - 1) * 2^971\<close>; half a step above it rounds to infinity.\<close>

lemma round_to_double_overflow_iff:
  assumes "0 \<le> a"
  shows "2 ^ 1024 \<le> round_to_double a \<longleftrightarrow> 2 ^ 1024 - 2 ^ 970 \<le> a"
proof -
  let ?L = "bit_length a"
  let ?e = "?L - 53"
  consider (small) "?L \<le> 53" | (mid) "53 < ?L" "?L \<le> 1023" | (top) "?L = 1024" | (over) "1024 < ?L"
    by linarith
  then show ?thesis
  proof cases
    case small
    then have "round_to_double a = a" by (simp add: round_to_double_def round_at_0)
    moreover have "a < 2 ^ 53"
    proof (cases "0 < a")
      case True
      then have "a < 2 ^ ?L" using bit_length_bounds by blast
      also have "(2::int) ^ ?L \<le> 2 ^ 53" using small by (intro power_increasing) simp_all
      finally show ?thesis .
    next
      case False
      then show ?thesis by simp
    qed
    ultimately show ?thesis by simp
  next
    case mid
    then have pos: "0 < a" using bit_length_nonpos [of a] by (cases "0 < a") simp_all
    then have lt: "a < 2 ^ ?L" using bit_length_bounds by blast
    have L: "?L = 53 + ?e" using mid by simp
    have "(2::int) ^ ?L = 2 ^ 53 * 2 ^ ?e" by (subst L) (simp add: power_add)
    with lt have "a div 2 ^ ?e < 2 ^ 53" by (intro div_upper) simp
    then have "a div 2 ^ ?e + 1 \<le> 2 ^ 53" by simp
    then have step: "(a div 2 ^ ?e + 1) * 2 ^ ?e \<le> 2 ^ 53 * 2 ^ ?e"
      by (intro mult_right_mono) simp_all
    have "round_to_double a \<le> (a div 2 ^ ?e + 1) * 2 ^ ?e"
      unfolding round_to_double_def by (rule round_at_upper)
    also note step
    also have "(2::int) ^ 53 * 2 ^ ?e = 2 ^ ?L" by (subst L) (simp add: power_add)
    also have "(2::int) ^ ?L \<le> 2 ^ 1023" using mid by (intro power_increasing) simp_all
    finally have "round_to_double a \<le> 2 ^ 1023" .
    moreover have "a < 2 ^ 1023"
    proof -
      have "(2::int) ^ ?L \<le> 2 ^ 1023" using mid by (intro power_increasing) simp_all
      with lt show ?thesis by linarith
    qed
    ultimately show ?thesis by simp
  next
    case top
    then have pos: "0 < a" using bit_length_nonpos [of a] by (cases "0 < a") simp_all
    with bit_length_bounds [of a] top have lo: "2 ^ 1023 \<le> a" and hi: "a < 2 ^ 1024" by simp_all
    have e: "?e = 971" using top by simp
    let ?q = "a div 2 ^ 971" and ?r = "a mod 2 ^ 971"
    have rd: "round_to_double a = round_at 971 a" by (simp add: round_to_double_def e)
    have split: "a = ?q * 2 ^ 971 + ?r" by (rule div_mult_mod_eq [symmetric])
    have r0: "0 \<le> ?r" and r1: "?r < 2 ^ 971" by simp_all
    have "(2::int) ^ 1024 = 2 ^ 53 * 2 ^ 971" by simp
    with hi have q53: "?q < 2 ^ 53" by (intro div_upper) simp
    show ?thesis
    proof (cases "2 ^ 1024 - 2 ^ 970 \<le> a")
      case True
      have "(2 ^ 53 - 1) * 2 ^ 971 \<le> a" using True by simp
      then have "2 ^ 53 - 1 \<le> ?q" by (rule div_lower)
      with q53 have q: "?q = 2 ^ 53 - 1" by simp
      then have "odd ?q" by simp
      moreover have "2 ^ 971 \<le> 2 * ?r"
      proof -
        have "a = (2 ^ 53 - 1) * 2 ^ 971 + ?r" using split by (simp only: q)
        with True show ?thesis by simp
      qed
      ultimately have "round_at 971 a = (?q + 1) * 2 ^ 971" by (rule round_at_up [rotated])
      with q rd True show ?thesis by simp
    next
      case False
      have "round_at 971 a < 2 ^ 1024"
      proof (cases "?q = 2 ^ 53 - 1")
        case True
        have "a = (2 ^ 53 - 1) * 2 ^ 971 + ?r" using split by (simp only: True)
        with False have "2 * ?r < 2 ^ 971" by simp
        then have "round_at 971 a = ?q * 2 ^ 971" by (rule round_at_down)
        with True show ?thesis by simp
      next
        case neq: False
        with q53 have "?q + 1 \<le> 2 ^ 53 - 1" by simp
        then have "(?q + 1) * 2 ^ 971 \<le> (2 ^ 53 - 1) * 2 ^ 971" by (intro mult_right_mono) simp_all
        with round_at_upper [of 971 a] show ?thesis by simp
      qed
      with rd False show ?thesis by simp
    qed
  next
    case over
    then have "0 < a" using bit_length_nonpos [of a] by (cases "0 < a") simp_all
    with bit_length_bounds have lo: "2 ^ (?L - 1) \<le> a" by blast
    have "(2::int) ^ 1024 \<le> 2 ^ (?L - 1)" using over by (intro power_increasing) simp_all
    with lo have big: "2 ^ 1024 \<le> a" by linarith
    have L: "?L - 1 = 52 + ?e" using over by simp
    have "(2::int) ^ (?L - 1) = 2 ^ 52 * 2 ^ ?e" by (subst L) (simp add: power_add)
    with lo have "2 ^ 52 \<le> a div 2 ^ ?e" by (intro div_lower) simp
    then have "2 ^ 52 * 2 ^ ?e \<le> a div 2 ^ ?e * 2 ^ ?e" by (intro mult_right_mono) simp_all
    also have "\<dots> \<le> round_to_double a" by (simp add: round_to_double_def round_at_lower)
    finally have "2 ^ (?L - 1) \<le> round_to_double a"
      using \<open>(2::int) ^ (?L - 1) = 2 ^ 52 * 2 ^ ?e\<close> by simp
    with \<open>(2::int) ^ 1024 \<le> 2 ^ (?L - 1)\<close> have "2 ^ 1024 \<le> round_to_double a" by linarith
    moreover have "(2::int) ^ 1024 - 2 ^ 970 \<le> a" using big by simp
    ultimately show ?thesis by simp
  qed
qed

lemma to_number_PosInfinity_iff: "to_number x = PosInfinity \<longleftrightarrow> 2 ^ 1024 - 2 ^ 970 \<le> x"
proof (cases "x < 0")
  case True
  moreover have "(0::int) \<le> 2 ^ 1024 - 2 ^ 970" by simp
  ultimately show ?thesis by (simp add: to_number_def Let_def)
next
  case False
  then have "\<bar>x\<bar> = x" by simp
  with False round_to_double_overflow_iff [of x] show ?thesis
    by (simp add: to_number_def Let_def)
qed

lemma to_number_NegInfinity_iff: "to_number x = NegInfinity \<longleftrightarrow> x \<le> - (2 ^ 1024 - 2 ^ 970)"
proof (cases "x < 0")
  case True
  then have "\<bar>x\<bar> = - x" by simp
  with True round_to_double_overflow_iff [of "- x"] show ?thesis
    by (simp add: to_number_def Let_def)
next
  case False
  moreover have "(0::int) \<le> 2 ^ 1024 - 2 ^ 970" by simp
  ultimately show ?thesis by (simp add: to_number_def Let_def)
qed

lemma to_number_not_NaN: "to_number x \<noteq> NaN"
  by (simp add: to_number_def Let_def)

lemma round_to_double_exact: "0 \<le> a \<Longrightarrow> a < 2 ^ 53 \<Longrightarrow> round_to_double a = a"
proof -
  assume "a < 2 ^ 53"
  then have "bit_length a \<le> 53" by (rule bit_length_le)
  then show ?thesis by (simp add: round_to_double_def round_at_0)
qed

lemma to_number_exact: "\<bar>x\<bar> < 2 ^ 53 \<Longrightarrow> to_number x = Finite x"
proof -
  assume a: "\<bar>x\<bar> < 2 ^ 53"
  then have r: "round_to_double \<bar>x\<bar> = \<bar>x\<bar>" by (intro round_to_double_exact) simp_all
  have "(2::int) ^ 53 \<le> 2 ^ 1024" by simp
  with a have "\<not> 2 ^ 1024 \<le> \<bar>x\<bar>" by linarith
  then show ?thesis by (simp add: to_number_def Let_def r)
qed

subsection \<open>Parsing a power of ten\<close>

lemma mathInt_zeros: "foldl (\<lambda>acc c. acc * int 10 + int (case digit_value c of None \<Rightarrow> 0 | Some d \<Rightarrow> d)) a
     (replicate n 48) = a * 10 ^ n"
  by (induction n arbitrary: a) (simp_all add: digit_value_def)

lemma integer_prefix_unsigned_decimal:
  assumes "\<not> is_whitespace c" and "c \<noteq> 43" and "c \<noteq> 45" and "c \<noteq> 48"
    and "takeWhile (radix_digit 10) (c # cs) = c # cs"
  shows "integer_prefix (c # cs) = Some (mathInt 10 (c # cs))"
proof -
  have "integer_prefix (c # cs)
      = (let Z = takeWhile (radix_digit 10) (c # cs) in
         if Z = [] then None else Some (mathInt 10 Z))"
    unfolding integer_prefix_def using assms(1,2,3,4)
    by (cases cs) (simp_all add: Let_def del: takeWhile.simps)
  then show ?thesis by (simp add: assms(5) Let_def del: takeWhile.simps)
qed

lemma integer_prefix_power_of_ten: "integer_prefix (49 # replicate n 48) = Some (10 ^ n)"
proof -
  have d: "radix_digit 10 49" "radix_digit 10 48"
    by (simp_all add: radix_digit_def digit_value_def)
  have t: "takeWhile (radix_digit 10) (49 # replicate n 48) = 49 # replicate n 48"
    using d by (simp add: takeWhile_eq_all_conv)
  have m: "mathInt 10 (49 # replicate n 48) = 10 ^ n"
    using mathInt_zeros [of 1 n] by (simp add: mathInt_def digit_value_def)
  have w: "\<not> is_whitespace 49" by (simp add: is_whitespace_def)
  have "integer_prefix (49 # replicate n 48) = Some (mathInt 10 (49 # replicate n 48))"
    using w _ _ _ t by (rule integer_prefix_unsigned_decimal) simp_all
  with m show ?thesis by simp
qed

lemma utf16_power_of_ten: "utf16 (''1'' @ replicate n (CHR ''0'')) = 49 # replicate n 48"
  by (simp add: utf16_def)

lemma round_to_double_pos: "0 < a \<Longrightarrow> 0 < round_to_double a"
proof (cases "a < 2 ^ 53")
  case True
  assume "0 < a"
  moreover from this True have "round_to_double a = a" by (intro round_to_double_exact) simp_all
  ultimately show ?thesis by simp
next
  case False
  assume pos: "0 < a"
  let ?e = "bit_length a - 53"
  from False have "(2::int) ^ 53 \<le> a" by simp
  then have "53 < bit_length a" by (rule bit_length_gt)
  then have L: "bit_length a - 1 = 52 + ?e" by simp
  from bit_length_bounds [OF pos] have "2 ^ (bit_length a - 1) \<le> a" by blast
  then have "2 ^ (52 + ?e) \<le> a" by (simp only: L)
  then have "2 ^ 52 * 2 ^ ?e \<le> a" by (simp only: power_add)
  then have "2 ^ 52 \<le> a div 2 ^ ?e" by (rule div_lower)
  moreover have "(0::int) < 2 ^ 52" by simp
  ultimately have "0 < a div 2 ^ ?e" by linarith
  then have "0 < a div 2 ^ ?e * 2 ^ ?e" by (intro mult_pos_pos) simp_all
  also have "\<dots> \<le> round_at ?e a" by (rule round_at_lower)
  finally show ?thesis by (simp only: round_to_double_def)
qed

lemma to_number_negative:
  "x < 0 \<Longrightarrow> to_number x = NegInfinity \<or> (\<exists>n. to_number x = Finite n \<and> n < 0)"
proof -
  assume "x < 0"
  then have "0 < \<bar>x\<bar>" by simp
  then have "0 < round_to_double \<bar>x\<bar>" by (rule round_to_double_pos)
  with \<open>x < 0\<close> show ?thesis by (simp add: to_number_def Let_def)
qed

subsection \<open>The token expiry\<close>

lemma expiry_cases:
  "fst (jwtExpiresIn v) =
     (case parseInt (ToString v) of
        NaN \<Rightarrow> Finite 120
      | NegInfinity \<Rightarrow> Finite 10
      | Finite n \<Rightarrow> if n = 0 then Finite 120 else if n < 10 then Finite 10 else Finite n
      | PosInfinity \<Rightarrow> PosInfinity)"
  by (simp add: jwtExpiresIn_def number_or_def Let_def split: number.splits)

text \<open>
  C9 (as stated, fails). A digit string whose value is \<open>2^1024 - 2^970\<close> or more (here 1
  followed by 309 zeros) makes \<open>parseInt\<close> return \<open>Infinity\<close>, which is truthy and not
  below 10, so the expiry is \<open>Infinity\<close>, not an integer. And \<open>0\<close>, which is below 10, is
  falsy: it is replaced by the default 120, not raised to 10.
\<close>

theorem expiry_counterexample:
  "fst (jwtExpiresIn (Some (utf16 (''1'' @ replicate 309 (CHR ''0''))))) = PosInfinity
   \<and> fst (jwtExpiresIn (Some (utf16 ''0''))) = Finite 120"
proof -
  have "(2::int) ^ 1024 - 2 ^ 970 \<le> 10 ^ 309" by simp
  then have "to_number (10 ^ 309) = PosInfinity" by (simp only: to_number_PosInfinity_iff)
  then have "parseInt (utf16 (''1'' @ replicate 309 (CHR ''0''))) = PosInfinity"
    by (simp only: parseInt_def utf16_power_of_ten integer_prefix_power_of_ten option.case)
  then have a: "fst (jwtExpiresIn (Some (utf16 (''1'' @ replicate 309 (CHR ''0''))))) = PosInfinity"
    by (simp add: expiry_cases ToString_def)
  have "integer_prefix (utf16 ''0'') = Some 0"
    by (simp add: integer_prefix_def Let_def utf16_def is_whitespace_def radix_digit_def
          digit_value_def mathInt_def)
  then have "parseInt (utf16 ''0'') = Finite 0" by (simp add: parseInt_def to_number_exact)
  then have b: "fst (jwtExpiresIn (Some (utf16 ''0''))) = Finite 120"
    by (simp add: expiry_cases ToString_def)
  from a b show ?thesis by (rule conjI)
qed

text \<open>
  C9 (amended). For every value of \<open>JWT_EXPIRES_IN\<close>, absent or not, the expiry is never
  \<open>NaN\<close> and never below 10: it is an integer of at least 10, or \<open>Infinity\<close>, the latter
  exactly when the digits denote \<open>2^1024 - 2^970\<close> or more. With no digits to parse (so
  also when absent) and with the value zero it is the default 120; any other parsed
  value below 10, negative ones included, gives 10; a value from 10 up to \<open>2^53\<close> is
  kept as it is.
\<close>

theorem expiry_at_least_10:
  "(fst (jwtExpiresIn v) = PosInfinity \<or> (\<exists>n. fst (jwtExpiresIn v) = Finite n \<and> 10 \<le> n))
   \<and> (fst (jwtExpiresIn v) = PosInfinity
        \<longleftrightarrow> (\<exists>x. integer_prefix (ToString v) = Some x \<and> 2 ^ 1024 - 2 ^ 970 \<le> x))
   \<and> (integer_prefix (ToString v) = None \<or> integer_prefix (ToString v) = Some 0
        \<longrightarrow> fst (jwtExpiresIn v) = Finite 120)
   \<and> (\<forall>x. integer_prefix (ToString v) = Some x \<and> x \<noteq> 0 \<and> x < 10
        \<longrightarrow> fst (jwtExpiresIn v) = Finite 10)
   \<and> (\<forall>x. integer_prefix (ToString v) = Some x \<and> 10 \<le> x \<and> x < 2 ^ 53
        \<longrightarrow> fst (jwtExpiresIn v) = Finite x)
   \<and> fst (jwtExpiresIn None) = Finite 120"
proof (intro conjI allI impI)
  show "fst (jwtExpiresIn v) = PosInfinity \<or> (\<exists>n. fst (jwtExpiresIn v) = Finite n \<and> 10 \<le> n)"
    by (cases "parseInt (ToString v)") (simp_all add: expiry_cases)
next
  have "fst (jwtExpiresIn v) = PosInfinity \<longleftrightarrow> parseInt (ToString v) = PosInfinity"
    by (cases "parseInt (ToString v)") (simp_all add: expiry_cases)
  also have "\<dots> \<longleftrightarrow> (\<exists>x. integer_prefix (ToString v) = Some x \<and> 2 ^ 1024 - 2 ^ 970 \<le> x)"
    by (cases "integer_prefix (ToString v)") (simp_all add: parseInt_def to_number_PosInfinity_iff)
  finally show "fst (jwtExpiresIn v) = PosInfinity
        \<longleftrightarrow> (\<exists>x. integer_prefix (ToString v) = Some x \<and> 2 ^ 1024 - 2 ^ 970 \<le> x)" .
next
  assume "integer_prefix (ToString v) = None \<or> integer_prefix (ToString v) = Some 0"
  then have "parseInt (ToString v) = NaN \<or> parseInt (ToString v) = Finite 0"
    by (auto simp: parseInt_def to_number_exact)
  then show "fst (jwtExpiresIn v) = Finite 120" by (auto simp: expiry_cases)
next
  fix x assume x: "integer_prefix (ToString v) = Some x \<and> x \<noteq> 0 \<and> x < 10"
  then have p: "parseInt (ToString v) = to_number x" by (simp add: parseInt_def)
  show "fst (jwtExpiresIn v) = Finite 10"
  proof (cases "x < 0")
    case True
    from to_number_negative [OF True] show ?thesis
      by (auto simp: expiry_cases p)
  next
    case False
    with x have "\<bar>x\<bar> < 2 ^ 53" by simp
    then have "to_number x = Finite x" by (rule to_number_exact)
    with x show ?thesis by (simp add: expiry_cases p)
  qed
next
  fix x assume x: "integer_prefix (ToString v) = Some x \<and> 10 \<le> x \<and> x < 2 ^ 53"
  then have "parseInt (ToString v) = Finite x" by (simp add: parseInt_def to_number_exact)
  with x show "fst (jwtExpiresIn v) = Finite x" by (simp add: expiry_cases)
next
  show "fst (jwtExpiresIn None) = Finite 120"
    by (simp add: jwtExpiresIn_def parseInt_def integer_prefix_def ToString_def Let_def utf16_def
          is_whitespace_def radix_digit_def digit_value_def number_or_def)
qed

theorem expiry_at_least_10_witness:
  "integer_prefix (ToString (Some (utf16 ''-5''))) = Some (- 5)
   \<and> fst (jwtExpiresIn (Some (utf16 ''-5''))) = Finite 10
   \<and> integer_prefix (ToString (Some (utf16 ''3600''))) = Some 3600
   \<and> fst (jwtExpiresIn (Some (utf16 ''3600''))) = Finite 3600"
proof -
  have p: "integer_prefix (ToString (Some (utf16 ''-5''))) = Some (- 5)"
    by (simp add: integer_prefix_def ToString_def Let_def utf16_def is_whitespace_def
          radix_digit_def digit_value_def mathInt_def)
  have q: "integer_prefix (ToString (Some (utf16 ''3600''))) = Some 3600"
    by (simp add: integer_prefix_def ToString_def Let_def utf16_def is_whitespace_def
          radix_digit_def digit_value_def mathInt_def)
  have "\<forall>x. integer_prefix (ToString (Some (utf16 ''-5''))) = Some x \<and> x \<noteq> 0 \<and> x < 10
        \<longrightarrow> fst (jwtExpiresIn (Some (utf16 ''-5''))) = Finite 10"
    using expiry_at_least_10 [of "Some (utf16 ''-5'')"] by blast
  with p have a: "fst (jwtExpiresIn (Some (utf16 ''-5''))) = Finite 10" by simp
  have "\<forall>x. integer_prefix (ToString (Some (utf16 ''3600''))) = Some x \<and> 10 \<le> x \<and> x < 2 ^ 53
        \<longrightarrow> fst (jwtExpiresIn (Some (utf16 ''3600''))) = Finite x"
    using expiry_at_least_10 [of "Some (utf16 ''3600'')"] by blast
  with q have b: "fst (jwtExpiresIn (Some (utf16 ''3600''))) = Finite 3600" by simp
  from p a q b show ?thesis by (intro conjI)
qed

end
